theory Spec2Isabelle
  imports Complex_Main "HOL-Library.AList"
begin

section \<open>Values and dictionaries\<close>

text \<open>
  The program passes around what \<^verbatim>\<open>json.loads\<close> returns: lists of dictionaries whose
  keys are strings. The field values that the code touches are scalars: JSON \<^verbatim>\<open>null\<close>,
  integers, floating-point numbers and strings. Booleans and nested containers as field
  values are outside this model. Strings are lists of 8-bit characters.

  A Python \<^verbatim>\<open>float\<close> is a finite value, an infinity or a NaN (\<^verbatim>\<open>json.loads\<close> accepts
  \<^verbatim>\<open>Infinity\<close> and \<^verbatim>\<open>NaN\<close>). Which rationals are floats, and how an operation rounds,
  is not fixed here: the arithmetic on floats is a parameter of the functions that
  compute with them. The sign of a zero is not kept.
\<close>

datatype fval = Fin rat | PosInf | NegInf | NaN

text \<open>
  In \<open>VFloat s x\<close>, \<open>x\<close> is the value of the float and \<open>s\<close> the text that \<^verbatim>\<open>str()\<close>
  gives it.
\<close>

datatype pyval = VNone | VInt int | VStr string | VFloat string fval

text \<open>
  A dictionary is an association list in insertion order; a lookup reads the first
  binding of a key, and an assignment replaces the binding in place or appends a new one
  (\<^const>\<open>AList.update\<close>), as a Python \<^verbatim>\<open>dict\<close> does.
\<close>

type_synonym pydict = "(string \<times> pyval) list"

datatype py_error = TypeError | OverflowError | ZeroDivisionError

definition dict_get :: "pydict \<Rightarrow> string \<Rightarrow> pyval \<Rightarrow> pyval" where
  \<comment> \<open>\<^verbatim>\<open>d.get(k, default)\<close>\<close>
  "dict_get d k dflt = (case map_of d k of None \<Rightarrow> dflt | Some v \<Rightarrow> v)"

definition dict_merge :: "pydict \<Rightarrow> pydict \<Rightarrow> pydict" where
  \<comment> \<open>\<^verbatim>\<open>{**a, **b}\<close>: the keys of \<open>a\<close> keep their places, the values of \<open>b\<close> win, new keys
      of \<open>b\<close> follow in the order of \<open>b\<close>. An association list may bind a key twice, which a
      \<^verbatim>\<open>dict\<close> cannot; \<^const>\<open>AList.clearjunk\<close> keeps the binding that a lookup reads.\<close>
  "dict_merge a b = fold (\<lambda>(k, v). AList.update k v) (AList.clearjunk b) a"

subsection \<open>\<^verbatim>\<open>str()\<close>, \<^verbatim>\<open>+\<close> and \<^verbatim>\<open>str.lower()\<close>\<close>

definition digit_char :: "nat \<Rightarrow> char" where
  "digit_char d = ''0123456789'' ! d"

fun str_nat :: "nat \<Rightarrow> string" where
  "str_nat n = (if n < 10 then [digit_char n] else str_nat (n div 10) @ [digit_char (n mod 10)])"

declare str_nat.simps [simp del]

definition str_int :: "int \<Rightarrow> string" where
  "str_int i = (if i < 0 then CHR ''-'' # str_nat (nat (- i)) else str_nat (nat i))"

fun py_str :: "pyval \<Rightarrow> string" where
  "py_str VNone = ''None''"
| "py_str (VInt i) = str_int i"
| "py_str (VStr s) = s"
| "py_str (VFloat s x) = s"

fun py_add_str :: "pyval \<Rightarrow> pyval \<Rightarrow> py_error + pyval" where
  \<comment> \<open>\<^verbatim>\<open>a + b\<close> where \<open>a\<close> or \<open>b\<close> is a string, as in every sum of the merge: the
      concatenation when the other operand is a string too, a \<^verbatim>\<open>TypeError\<close> when it is
      \<^verbatim>\<open>None\<close> or a number\<close>
  "py_add_str (VStr a) (VStr b) = Inr (VStr (a @ b))"
| "py_add_str _ _ = Inl TypeError"

definition lower_char :: "char \<Rightarrow> char" where
  \<comment> \<open>\<^verbatim>\<open>str.lower()\<close> on the letters \<open>A\<close> to \<open>Z\<close>; no character outside ASCII has one of
      the letters of \<^verbatim>\<open>contd\<close> as its lower-case form, so the comparison with
      \<^verbatim>\<open>"contd"\<close> is not affected\<close>
  "lower_char c =
     (case map_of (zip ''ABCDEFGHIJKLMNOPQRSTUVWXYZ'' ''abcdefghijklmnopqrstuvwxyz'') c of
        None \<Rightarrow> c | Some l \<Rightarrow> l)"

definition lower :: "string \<Rightarrow> string" where
  "lower s = map lower_char s"

definition blank_line :: string where
  \<comment> \<open>the separator \<^verbatim>\<open>'\n\n'\<close>\<close>
  "blank_line = [CHR 0x0A, CHR 0x0A]"

section \<open>Merging the OCR results of the pages\<close>

text \<open>
  \<^verbatim>\<open>ocr_image\<close> returns whatever the model's JSON decodes to; \<^verbatim>\<open>merge_ocr_results\<close>
  skips a page result that is not a list.
\<close>

datatype page_result = Fragments "pydict list" | Not_a_list

definition question_num_of :: "pydict \<Rightarrow> string" where
  \<comment> \<open>\<^verbatim>\<open>str(item.get('question_number', 'Unknown'))\<close>\<close>
  "question_num_of item = py_str (dict_get item ''question_number'' (VStr ''Unknown''))"

definition answer_of :: "pydict \<Rightarrow> pyval" where
  \<comment> \<open>\<^verbatim>\<open>item.get('answer', 'No answer extracted')\<close>\<close>
  "answer_of item = dict_get item ''answer'' (VStr ''No answer extracted'')"

text \<open>The state of the loop: \<^verbatim>\<open>merged_answers\<close> and \<^verbatim>\<open>last_question\<close>.\<close>

type_synonym merge_state = "pydict \<times> string option"

definition merge_item :: "pydict \<Rightarrow> merge_state \<Rightarrow> py_error + merge_state" where
  \<comment> \<open>The test \<^verbatim>\<open>question_num.lower() == "contd" and last_question is not None\<close> is the
      first \<open>case\<close>: it succeeds exactly when it yields the label in \<^verbatim>\<open>last_question\<close>.\<close>
  "merge_item item st =
     (let merged_answers = fst st;
          last_question = snd st;
          question_num = question_num_of item;
          answer = answer_of item
      in case (if lower question_num = ''contd'' then last_question else None) of
           Some lq \<Rightarrow>
             (case py_add_str (dict_get merged_answers lq (VStr [])) (VStr blank_line) of
                Inl e \<Rightarrow> Inl e
              | Inr t \<Rightarrow>
                  (case py_add_str t answer of
                     Inl e \<Rightarrow> Inl e
                   | Inr v \<Rightarrow> Inr (AList.update lq v merged_answers, last_question)))
         | None \<Rightarrow>
             (case map_of merged_answers question_num of
                Some old \<Rightarrow>
                  (case py_add_str old (VStr blank_line) of
                     Inl e \<Rightarrow> Inl e
                   | Inr t \<Rightarrow>
                       (case py_add_str t answer of
                          Inl e \<Rightarrow> Inl e
                        | Inr v \<Rightarrow>
                            Inr (AList.update question_num v merged_answers, Some question_num)))
              | None \<Rightarrow>
                  Inr (AList.update question_num answer merged_answers, Some question_num)))"

fun merge_items :: "pydict list \<Rightarrow> merge_state \<Rightarrow> py_error + merge_state" where
  "merge_items [] st = Inr st"
| "merge_items (item # items) st =
     (case merge_item item st of Inl e \<Rightarrow> Inl e | Inr st' \<Rightarrow> merge_items items st')"

fun merge_pages :: "page_result list \<Rightarrow> merge_state \<Rightarrow> py_error + merge_state" where
  "merge_pages [] st = Inr st"
| "merge_pages (Not_a_list # pages) st = merge_pages pages st"
| "merge_pages (Fragments items # pages) st =
     (case merge_items items st of Inl e \<Rightarrow> Inl e | Inr st' \<Rightarrow> merge_pages pages st')"

definition merge_ocr_results :: "page_result list \<Rightarrow> py_error + pydict" where
  "merge_ocr_results all_results =
     (case merge_pages all_results ([], None) of Inl e \<Rightarrow> Inl e | Inr st \<Rightarrow> Inr (fst st))"

section \<open>Assembling the grading data\<close>

text \<open>
  What the session state holds under \<^verbatim>\<open>question_paper_json\<close> and
  \<^verbatim>\<open>grading_scheme_json\<close>: a list of records, or something else (the extractors return
  a dictionary with an \<^verbatim>\<open>error\<close> or \<^verbatim>\<open>text\<close> key when they fail). A field that
  is \<open>None\<close> is a key that the session state does not have.
\<close>

datatype json_payload = Payload_list "pydict list" | Payload_other

record session_state =
  merged_answers :: "pydict option"
  question_paper_json :: "json_payload option"
  grading_scheme_json :: "json_payload option"
  user_notes :: "string option"

definition gs_lookup_of :: "pydict list \<Rightarrow> pydict" where
  \<comment> \<open>\<^verbatim>\<open>{str(item.get("question_number")): item.get("grading_scheme", "") for item in grading_scheme}\<close>\<close>
  "gs_lookup_of grading_scheme =
     fold (\<lambda>item d. AList.update (py_str (dict_get item ''question_number'' VNone))
                       (dict_get item ''grading_scheme'' (VStr [])) d)
       grading_scheme []"

definition q_num_of :: "pydict \<Rightarrow> string" where
  \<comment> \<open>\<^verbatim>\<open>str(question.get("question_number", ""))\<close>\<close>
  "q_num_of question = py_str (dict_get question ''question_number'' (VStr []))"

definition question_data_of :: "pydict \<Rightarrow> pydict \<Rightarrow> string \<Rightarrow> pydict \<Rightarrow> pydict" where
  "question_data_of student_answers gs_lookup professor_prompt question =
     (let q_num = q_num_of question;
          student_answer = dict_get student_answers q_num (VStr []);
          question_grading_scheme = dict_get gs_lookup q_num (VStr [])
      in [(''question_num'', VStr q_num),
          (''question'', dict_get question ''question'' (VStr [])),
          (''marks'', dict_get question ''marks'' (VInt 5)),
          (''student_answer'', student_answer),
          (''grading_scheme'', question_grading_scheme),
          (''relevant_lecture_text'', VStr []),
          (''professor_prompt'', VStr professor_prompt)])"

text \<open>The loop over the question paper; a question whose number is the empty string is skipped.\<close>

fun assemble :: "pydict \<Rightarrow> pydict \<Rightarrow> string \<Rightarrow> pydict list \<Rightarrow> pydict list" where
  "assemble student_answers gs_lookup professor_prompt [] = []"
| "assemble student_answers gs_lookup professor_prompt (question # question_paper) =
     (if q_num_of question = []
      then assemble student_answers gs_lookup professor_prompt question_paper
      else question_data_of student_answers gs_lookup professor_prompt question #
           assemble student_answers gs_lookup professor_prompt question_paper)"

definition prepare_grading_data :: "session_state \<Rightarrow> pydict list option" where
  "prepare_grading_data s =
     (case (merged_answers s, question_paper_json s, grading_scheme_json s) of
        (Some student_answers, Some (Payload_list question_paper),
           Some (Payload_list grading_scheme)) \<Rightarrow>
          Some (assemble student_answers (gs_lookup_of grading_scheme)
                  (case user_notes s of None \<Rightarrow> [] | Some notes \<Rightarrow> notes) question_paper)
      | _ \<Rightarrow> None)"

section \<open>Grading\<close>

text \<open>
  \<^verbatim>\<open>grade_answer\<close> sends the request to the model and decodes the reply. What the
  outside world does is a parameter, one of four cases: the call (or the decoding of a
  reply without text) raises an exception with the given text; the reply is not valid
  JSON; it decodes to an object; or it decodes to some other JSON value, given by the
  name of its Python type.
\<close>

datatype api_reply =
    Call_raises string
  | Invalid_json string
  | Json_object pydict
  | Json_non_object string

datatype grading_value = Result_dict pydict | Result_non_mapping string

definition grade_answer :: "(pydict \<Rightarrow> api_reply) \<Rightarrow> pydict \<Rightarrow> string + grading_value" where
  "grade_answer api answer_data =
     (case api answer_data of
        Call_raises e \<Rightarrow> Inl e
      | Invalid_json raw \<Rightarrow>
          Inr (Result_dict [(''error'', VStr ''Failed to parse grading results''),
                            (''raw_response'', VStr raw)])
      | Json_object d \<Rightarrow> Inr (Result_dict d)
      | Json_non_object ty \<Rightarrow> Inr (Result_non_mapping ty))"

definition not_a_mapping :: "string \<Rightarrow> string" where
  \<comment> \<open>the text of the \<^verbatim>\<open>TypeError\<close> that \<^verbatim>\<open>**grading_result\<close> raises on a value that is
      not a mapping\<close>
  "not_a_mapping ty = [CHR 0x27] @ ty @ [CHR 0x27] @ '' object is not a mapping''"

definition failed_grading :: "pydict \<Rightarrow> string \<Rightarrow> pydict" where
  \<comment> \<open>the placeholder of the \<^verbatim>\<open>except\<close> branch\<close>
  "failed_grading question_data e =
     dict_merge question_data
       [(''error'', VStr e), (''marks_awarded'', VInt 0),
        (''explanation'', VStr ''Error during grading'')]"

definition grade_one :: "(pydict \<Rightarrow> api_reply) \<Rightarrow> pydict \<Rightarrow> pydict" where
  \<comment> \<open>the body of the loop of \<^verbatim>\<open>grading_page\<close>: \<^verbatim>\<open>try\<close> and \<^verbatim>\<open>except Exception\<close>\<close>
  "grade_one api question_data =
     (case grade_answer api question_data of
        Inl e \<Rightarrow> failed_grading question_data e
      | Inr (Result_dict grading_result) \<Rightarrow> dict_merge question_data grading_result
      | Inr (Result_non_mapping ty) \<Rightarrow> failed_grading question_data (not_a_mapping ty))"

text \<open>
  The loop \<^verbatim>\<open>for i, question_data in enumerate(grading_data)\<close>; the model may answer the
  \<open>i\<close>-th call differently from any other, so the outside world is indexed by \<open>i\<close>.
\<close>

fun grading_results :: "(nat \<Rightarrow> pydict \<Rightarrow> api_reply) \<Rightarrow> nat \<Rightarrow> pydict list \<Rightarrow> pydict list" where
  "grading_results gemini i [] = []"
| "grading_results gemini i (question_data # grading_data) =
     grade_one (gemini i) question_data # grading_results gemini (Suc i) grading_data"

definition grading_page :: "(nat \<Rightarrow> pydict \<Rightarrow> api_reply) \<Rightarrow> session_state \<Rightarrow> pydict list option" where
  \<comment> \<open>\<open>None\<close>: the page reports missing data and returns (\<^verbatim>\<open>if not grading_data\<close>)\<close>
  "grading_page gemini s =
     (case prepare_grading_data s of
        None \<Rightarrow> None
      | Some grading_data \<Rightarrow>
          if grading_data = [] then None else Some (grading_results gemini 0 grading_data))"

section \<open>The total score\<close>

text \<open>
  The totals are Python numbers. Sums of integers are exact. Whatever involves a float
  is left to the arithmetic of the interpreter, a parameter: \<open>float_sum\<close> is what
  \<^verbatim>\<open>sum\<close> returns or raises on a list of numbers that are not all integers (from the
  start value \<open>0\<close>), \<open>true_div\<close> is the quotient \<^verbatim>\<open>a / p\<close> of two numbers for \<open>p\<close>
  other than zero (always a float; it raises \<^verbatim>\<open>OverflowError\<close> when an integer operand or
  the quotient of two integers is too large for a float), and \<open>mul_100\<close> is \<^verbatim>\<open>q * 100\<close>
  for a float \<open>q\<close>.
\<close>

datatype py_num = NInt int | NFloat fval

record float_arith =
  float_sum :: "py_num list \<Rightarrow> py_error + fval"
  true_div :: "py_num \<Rightarrow> py_num \<Rightarrow> py_error + fval"
  mul_100 :: "fval \<Rightarrow> fval"

fun num_of :: "pyval \<Rightarrow> py_num option" where
  "num_of (VInt i) = Some (NInt i)"
| "num_of (VFloat s x) = Some (NFloat x)"
| "num_of _ = None"

fun num_truthy :: "py_num \<Rightarrow> bool" where
  \<comment> \<open>the truth value of a number: it is not zero\<close>
  "num_truthy (NInt i) = (i \<noteq> 0)"
| "num_truthy (NFloat (Fin r)) = (r \<noteq> 0)"
| "num_truthy (NFloat _) = True"

fun ints_of :: "py_num list \<Rightarrow> int list option" where
  \<comment> \<open>the integers of a list of numbers that has no float\<close>
  "ints_of [] = Some []"
| "ints_of (NInt i # ns) = map_option ((#) i) (ints_of ns)"
| "ints_of (NFloat x # ns) = None"

definition sum_numbers :: "float_arith \<Rightarrow> py_num list \<Rightarrow> py_error + py_num" where
  "sum_numbers fl ns =
     (case ints_of ns of
        Some is \<Rightarrow> Inr (NInt (sum_list is))
      | None \<Rightarrow> (case float_sum fl ns of Inl e \<Rightarrow> Inl e | Inr x \<Rightarrow> Inr (NFloat x)))"

fun leading_numbers :: "pyval list \<Rightarrow> py_num list" where
  \<comment> \<open>the numbers that \<^verbatim>\<open>sum\<close> adds before it meets a value that is not a number\<close>
  "leading_numbers [] = []"
| "leading_numbers (v # vs) =
     (case num_of v of None \<Rightarrow> [] | Some n \<Rightarrow> n # leading_numbers vs)"

definition py_sum :: "float_arith \<Rightarrow> pyval list \<Rightarrow> py_error + py_num" where
  \<comment> \<open>\<^verbatim>\<open>sum(...)\<close>: the values are added from left to right; a string or \<^verbatim>\<open>None\<close> raises
      \<^verbatim>\<open>TypeError\<close> when the sum reaches it\<close>
  "py_sum fl vs =
     (let ns = leading_numbers vs
      in case sum_numbers fl ns of
           Inl e \<Rightarrow> Inl e
         | Inr n \<Rightarrow> if length ns = length vs then Inr n else Inl TypeError)"

record score =
  awarded :: py_num
  possible :: py_num
  percentage :: py_num

text \<open>
  The header line of the results: nothing is computed for an empty result list
  (\<^verbatim>\<open>if results:\<close>), and the quotient is taken only when the total of the possible
  marks is true, that is, not zero; the percentage is the integer \<open>0\<close> otherwise.
\<close>

definition total_score :: "float_arith \<Rightarrow> pydict list \<Rightarrow> (py_error + score) option" where
  "total_score fl results =
     (if results = [] then None
      else Some
        (case py_sum fl (map (\<lambda>result. dict_get result ''marks_awarded'' (VInt 0)) results) of
           Inl e \<Rightarrow> Inl e
         | Inr total_marks_awarded \<Rightarrow>
             (case py_sum fl (map (\<lambda>result. dict_get result ''marks'' (VInt 0)) results) of
                Inl e \<Rightarrow> Inl e
              | Inr total_possible_marks \<Rightarrow>
                  if num_truthy total_possible_marks
                  then (case true_div fl total_marks_awarded total_possible_marks of
                          Inl e \<Rightarrow> Inl e
                        | Inr q \<Rightarrow>
                            Inr \<lparr>awarded = total_marks_awarded, possible = total_possible_marks,
                                 percentage = NFloat (mul_100 fl q)\<rparr>)
                  else Inr \<lparr>awarded = total_marks_awarded, possible = total_possible_marks,
                            percentage = NInt 0\<rparr>)))"

section \<open>Notions used to state the properties\<close>

text \<open>
  None of the following is part of the program. The first group describes the inputs on
  which the merge cannot raise, the invariant that its loop keeps and the fragments that
  leave an entry alone; the second reads numeric fields; the third gives sample
  behaviours of the outside world, used in concrete instances.
\<close>

definition is_text :: "pyval \<Rightarrow> bool" where
  "is_text v = (case v of VStr _ \<Rightarrow> True | _ \<Rightarrow> False)"

fun fragments_of :: "page_result list \<Rightarrow> pydict list" where
  "fragments_of [] = []"
| "fragments_of (Not_a_list # pages) = fragments_of pages"
| "fragments_of (Fragments items # pages) = items @ fragments_of pages"

definition text_answers :: "pydict list \<Rightarrow> bool" where
  "text_answers items = list_all (\<lambda>item. is_text (answer_of item)) items"

definition merge_inv :: "merge_state \<Rightarrow> bool" where
  "merge_inv st \<longleftrightarrow>
     list_all (\<lambda>p. is_text (snd p)) (fst st) \<and> distinct (map fst (fst st)) \<and>
     (case snd st of None \<Rightarrow> True | Some lq \<Rightarrow> map_of (fst st) lq \<noteq> None)"

definition target_label :: "pydict \<Rightarrow> merge_state \<Rightarrow> string" where
  "target_label item st =
     (case snd st of
        None \<Rightarrow> question_num_of item
      | Some lq \<Rightarrow> if lower (question_num_of item) = ''contd'' then lq else question_num_of item)"

definition joined :: "pydict \<Rightarrow> string \<Rightarrow> string \<Rightarrow> string" where
  "joined m k a = (case map_of m k of Some (VStr old) \<Rightarrow> old @ blank_line @ a | _ \<Rightarrow> a)"

fun int_of :: "pyval \<Rightarrow> int" where
  "int_of (VInt i) = i"
| "int_of _ = 0"

definition is_int :: "pyval \<Rightarrow> bool" where
  "is_int v = (case v of VInt _ \<Rightarrow> True | _ \<Rightarrow> False)"

definition is_number :: "pyval \<Rightarrow> bool" where
  "is_number v = (case v of VInt _ \<Rightarrow> True | VFloat _ _ \<Rightarrow> True | _ \<Rightarrow> False)"

fun number_of :: "pyval \<Rightarrow> py_num" where
  "number_of (VFloat s x) = NFloat x"
| "number_of v = NInt (int_of v)"

text \<open>
  Where a run of fragments begins with a genuine label, and where, besides, no fragment
  of it is labelled \<open>l\<close>: then none of its fragments is attributed to \<open>l\<close>.
\<close>

definition starts_afresh :: "pydict list \<Rightarrow> bool" where
  "starts_afresh zs =
     (case zs of [] \<Rightarrow> True | z # _ \<Rightarrow> lower (question_num_of z) \<noteq> ''contd'')"

definition leaves_alone :: "string \<Rightarrow> pydict list \<Rightarrow> bool" where
  "leaves_alone l zs \<longleftrightarrow>
     starts_afresh zs \<and> list_all (\<lambda>item. question_num_of item \<noteq> l) zs"

text \<open>The text of a fragment whose answer is a string.\<close>

definition text_of :: "pydict \<Rightarrow> string" where
  "text_of item = (case answer_of item of VStr t \<Rightarrow> t | _ \<Rightarrow> [])"

text \<open>
  An arithmetic that does not round: sums, quotients and products are the exact
  rationals, and the infinities and NaN combine as floats do. It agrees with the
  arithmetic of the interpreter wherever no rounding takes place.
\<close>

fun exact_add :: "fval \<Rightarrow> fval \<Rightarrow> fval" where
  "exact_add (Fin a) (Fin b) = Fin (a + b)"
| "exact_add NaN _ = NaN"
| "exact_add _ NaN = NaN"
| "exact_add PosInf NegInf = NaN"
| "exact_add NegInf PosInf = NaN"
| "exact_add PosInf _ = PosInf"
| "exact_add _ PosInf = PosInf"
| "exact_add NegInf _ = NegInf"
| "exact_add _ NegInf = NegInf"

fun float_of :: "py_num \<Rightarrow> fval" where
  "float_of (NInt i) = Fin (of_int i)"
| "float_of (NFloat x) = x"

definition exact_sum :: "py_num list \<Rightarrow> py_error + fval" where
  "exact_sum ns = Inr (fold (\<lambda>n acc. exact_add acc (float_of n)) ns (Fin 0))"

fun exact_div :: "fval \<Rightarrow> fval \<Rightarrow> py_error + fval" where
  "exact_div (Fin a) (Fin b) = (if b = 0 then Inl ZeroDivisionError else Inr (Fin (a / b)))"
| "exact_div PosInf (Fin b) =
     (if b = 0 then Inl ZeroDivisionError else Inr (if 0 < b then PosInf else NegInf))"
| "exact_div NegInf (Fin b) =
     (if b = 0 then Inl ZeroDivisionError else Inr (if 0 < b then NegInf else PosInf))"
| "exact_div NaN (Fin b) = (if b = 0 then Inl ZeroDivisionError else Inr NaN)"
| "exact_div _ NaN = Inr NaN"
| "exact_div (Fin a) _ = Inr (Fin 0)"
| "exact_div _ _ = Inr NaN"

fun exact_mul_100 :: "fval \<Rightarrow> fval" where
  "exact_mul_100 (Fin a) = Fin (a * 100)"
| "exact_mul_100 x = x"

definition exact_arith :: float_arith where
  "exact_arith =
     \<lparr>float_sum = exact_sum,
      true_div = (\<lambda>a p. exact_div (float_of a) (float_of p)),
      mul_100 = exact_mul_100\<rparr>"

text \<open>A model that awards every question its full marks.\<close>

definition full_marks :: "nat \<Rightarrow> pydict \<Rightarrow> api_reply" where
  "full_marks i question_data = Json_object [(''marks_awarded'', dict_get question_data ''marks'' (VInt 0)), (''explanation'', VStr ''Correct.'')]"

text \<open>A model whose reply is never valid JSON.\<close>

definition always_invalid_json :: "nat \<Rightarrow> pydict \<Rightarrow> api_reply" where
  "always_invalid_json i question_data = Invalid_json ''not json''"

text \<open>
  A model whose first reply is not valid JSON, whose second call raises, whose third
  reply is a JSON list, and which grades every later question.
\<close>

definition mixed_replies :: "nat \<Rightarrow> pydict \<Rightarrow> api_reply" where
  "mixed_replies i question_data =
     (if i = 0 then Invalid_json ''not json''
      else if i = 1 then Call_raises ''timed out''
      else if i = 2 then Json_non_object ''list''
      else Json_object [(''marks_awarded'', VInt 2), (''explanation'', VStr ''Partly right.'')])"

section \<open>The merge: one step, and the loops\<close>

lemma is_text_iff: "is_text v \<longleftrightarrow> (\<exists>s. v = VStr s)"
  by (cases v) (simp_all add: is_text_def)

lemma text_lookup:
  "list_all (\<lambda>p. is_text (snd p)) m \<Longrightarrow> map_of m k = Some v \<Longrightarrow> \<exists>s. v = VStr s"
  by (induction m) (auto simp: is_text_iff split: if_splits)

lemma text_update:
  "list_all (\<lambda>p. is_text (snd p)) m \<Longrightarrow> list_all (\<lambda>p. is_text (snd p)) (AList.update k (VStr s) m)"
  by (induction m) (auto simp: is_text_def)

text \<open>
  Under the invariant, one step never raises: it extends the text of the target label,
  or creates its entry, and makes it the last question.
\<close>

lemma merge_item_step:
  assumes inv: "merge_inv st" and ans: "answer_of item = VStr a"
  shows "merge_item item st =
           Inr (AList.update (target_label item st)
                  (VStr (joined (fst st) (target_label item st) a)) (fst st),
                Some (target_label item st))"
proof -
  from inv have texts: "list_all (\<lambda>p. is_text (snd p)) (fst st)"
    by (simp add: merge_inv_def)
  show ?thesis
  proof (cases "if lower (question_num_of item) = ''contd'' then snd st else None")
    case (Some lq)
    then have lq: "snd st = Some lq" and tl: "target_label item st = lq"
      and c: "lower (question_num_of item) = ''contd''"
      by (auto simp: target_label_def split: if_splits)
    with inv obtain v where v: "map_of (fst st) lq = Some v"
      by (auto simp: merge_inv_def)
    from text_lookup [OF texts v] obtain old where old: "v = VStr old" ..
    show ?thesis
      using c lq tl v old ans
      by (simp add: merge_item_def Let_def joined_def dict_get_def)
  next
    case None
    then have tl: "target_label item st = question_num_of item"
      by (auto simp: target_label_def split: option.splits if_splits)
    show ?thesis
    proof (cases "map_of (fst st) (question_num_of item)")
      case None
      with \<open>(if lower (question_num_of item) = ''contd'' then snd st else None) = None\<close> tl ans
      show ?thesis
        by (simp add: merge_item_def Let_def joined_def)
    next
      case (Some v)
      from text_lookup [OF texts Some] obtain old where old: "v = VStr old" ..
      with Some \<open>(if lower (question_num_of item) = ''contd'' then snd st else None) = None\<close> tl ans
      show ?thesis
        by (simp add: merge_item_def Let_def joined_def)
    qed
  qed
qed

lemma merge_item_resume:
  assumes inv: "merge_inv st" and ans: "answer_of item = VStr a"
    and real: "lower (question_num_of item) \<noteq> ''contd''"
  shows "merge_item item st =
           Inr (AList.update (question_num_of item)
                  (VStr (joined (fst st) (question_num_of item) a)) (fst st),
                Some (question_num_of item))"
proof -
  from real have "target_label item st = question_num_of item"
    by (simp add: target_label_def split: option.splits)
  with merge_item_step [OF inv ans] show ?thesis by simp
qed

lemma merge_inv_step:
  assumes inv: "merge_inv st"
  shows "merge_inv (AList.update k (VStr s) (fst st), Some k)"
  using inv by (simp add: merge_inv_def text_update distinct_update update_conv')

lemma merge_inv_init: "merge_inv ([], None)"
  by (simp add: merge_inv_def)

lemma merge_inv_distinct: "merge_inv st \<Longrightarrow> distinct (map fst (fst st))"
  by (simp add: merge_inv_def)

lemma merge_items_append:
  "merge_items (xs @ ys) st =
     (case merge_items xs st of Inl e \<Rightarrow> Inl e | Inr st' \<Rightarrow> merge_items ys st')"
  by (induction xs arbitrary: st) (auto split: sum.splits)

lemma fragments_of_append: "fragments_of (ps @ qs) = fragments_of ps @ fragments_of qs"
  by (induction ps rule: fragments_of.induct) simp_all

lemma merge_pages_fragments: "merge_pages pages st = merge_items (fragments_of pages) st"
  by (induction pages st rule: merge_pages.induct) (auto simp: merge_items_append split: sum.splits)

lemma text_answers_append: "text_answers (xs @ ys) \<longleftrightarrow> text_answers xs \<and> text_answers ys"
  by (simp add: text_answers_def)

lemma text_answers_Cons: "text_answers (x # xs) \<longleftrightarrow> is_text (answer_of x) \<and> text_answers xs"
  by (simp add: text_answers_def)

text \<open>The text under a label only grows, at its end.\<close>

lemma merge_items_grow:
  assumes "merge_inv st" and "text_answers items" and "map_of (fst st) k = Some (VStr t)"
  shows "\<exists>st' u. merge_items items st = Inr st' \<and> merge_inv st' \<and>
           map_of (fst st') k = Some (VStr (t @ u))"
  using assms
proof (induction items arbitrary: st t)
  case Nil
  then show ?case by simp
next
  case (Cons item items)
  from Cons.prems(2) obtain a where a: "answer_of item = VStr a" and rest: "text_answers items"
    by (auto simp: text_answers_def is_text_iff)
  let ?k = "target_label item st"
  let ?st = "(AList.update ?k (VStr (joined (fst st) ?k a)) (fst st), Some ?k)"
  have step: "merge_item item st = Inr ?st"
    by (rule merge_item_step [OF Cons.prems(1) a])
  have inv': "merge_inv ?st" by (rule merge_inv_step [OF Cons.prems(1)])
  have "\<exists>u. map_of (fst ?st) k = Some (VStr (t @ u))"
    using Cons.prems(3) by (auto simp: update_conv' joined_def)
  then obtain u where u: "map_of (fst ?st) k = Some (VStr (t @ u))" ..
  from Cons.IH [OF inv' rest u] obtain st' w where
    "merge_items items ?st = Inr st'" "merge_inv st'" "map_of (fst st') k = Some (VStr ((t @ u) @ w))"
    by blast
  with step show ?case by (auto intro: exI [of _ "u @ w"])
qed

lemma merge_items_total:
  assumes "merge_inv st" and "text_answers items"
  shows "\<exists>st'. merge_items items st = Inr st' \<and> merge_inv st'"
  using assms
proof (induction items arbitrary: st)
  case Nil
  then show ?case by simp
next
  case (Cons item items)
  from Cons.prems(2) obtain a where a: "answer_of item = VStr a" and rest: "text_answers items"
    by (auto simp: text_answers_def is_text_iff)
  show ?case
    using merge_item_step [OF Cons.prems(1) a] Cons.IH [OF merge_inv_step [OF Cons.prems(1)] rest]
    by simp
qed

text \<open>Fragments attributed to other labels leave a label's text as it is.\<close>

lemma merge_items_other:
  assumes "merge_inv st" and "text_answers items"
    and "list_all (\<lambda>item. question_num_of item \<noteq> l) items" and "snd st \<noteq> Some l"
  shows "\<exists>st'. merge_items items st = Inr st' \<and> merge_inv st' \<and>
           map_of (fst st') l = map_of (fst st) l \<and> snd st' \<noteq> Some l"
  using assms
proof (induction items arbitrary: st)
  case Nil
  then show ?case by simp
next
  case (Cons item items)
  from Cons.prems(2) obtain a where a: "answer_of item = VStr a" and rest: "text_answers items"
    by (auto simp: text_answers_def is_text_iff)
  let ?k = "target_label item st"
  let ?st = "(AList.update ?k (VStr (joined (fst st) ?k a)) (fst st), Some ?k)"
  have step: "merge_item item st = Inr ?st"
    by (rule merge_item_step [OF Cons.prems(1) a])
  have inv': "merge_inv ?st" by (rule merge_inv_step [OF Cons.prems(1)])
  have k: "?k \<noteq> l"
    using Cons.prems(3,4) by (auto simp: target_label_def split: option.splits)
  then have same: "map_of (fst ?st) l = map_of (fst st) l" and last: "snd ?st \<noteq> Some l"
    by (auto simp: update_conv')
  from Cons.prems(3) have others: "list_all (\<lambda>item. question_num_of item \<noteq> l) items" by simp
  from Cons.IH [OF inv' rest others last] same step show ?case by auto
qed

text \<open>Continuation fragments extend the text of the last question.\<close>

lemma merge_items_continued:
  assumes "merge_inv st" and "text_answers cs"
    and "list_all (\<lambda>item. lower (question_num_of item) = ''contd'') cs"
    and "snd st = Some l" and "map_of (fst st) l = Some (VStr t)"
  shows "\<exists>st'. merge_items cs st = Inr st' \<and> merge_inv st' \<and> snd st' = Some l \<and>
           map_of (fst st') l =
             Some (VStr (t @ concat (map (\<lambda>item. blank_line @ text_of item) cs)))"
  using assms
proof (induction cs arbitrary: st t)
  case Nil
  then show ?case by simp
next
  case (Cons item cs)
  from Cons.prems(2) obtain a where a: "answer_of item = VStr a" and rest: "text_answers cs"
    by (auto simp: text_answers_def is_text_iff)
  from Cons.prems(3) have c: "lower (question_num_of item) = ''contd''"
    and cs: "list_all (\<lambda>item. lower (question_num_of item) = ''contd'') cs" by simp_all
  have tl: "target_label item st = l"
    using c Cons.prems(4) by (simp add: target_label_def)
  let ?st = "(AList.update l (VStr (t @ blank_line @ a)) (fst st), Some l)"
  have step: "merge_item item st = Inr ?st"
    using merge_item_step [OF Cons.prems(1) a] tl Cons.prems(5) by (simp add: joined_def)
  have inv': "merge_inv ?st" by (rule merge_inv_step [OF Cons.prems(1)])
  have l': "snd ?st = Some l" and m': "map_of (fst ?st) l = Some (VStr (t @ blank_line @ a))"
    by (simp_all add: update_conv')
  from Cons.IH [OF inv' rest cs l' m'] step a show ?case
    by (auto simp: text_of_def)
qed

lemma merge_item_cong:
  "question_num_of i = question_num_of j \<Longrightarrow> answer_of i = answer_of j \<Longrightarrow>
   merge_item i st = merge_item j st"
  by (simp add: merge_item_def)

lemma merge_items_cong_item:
  assumes "question_num_of i = question_num_of j" and "answer_of i = answer_of j"
  shows "merge_items (xs @ i # ys) st = merge_items (xs @ j # ys) st"
  using merge_item_cong [OF assms] by (simp add: merge_items_append split: sum.splits)

lemma lower_1: "lower ''1'' = ''1''" by (simp add: lower_def lower_char_def)
lemma lower_2: "lower ''2'' = ''2''" by (simp add: lower_def lower_char_def)

lemma blank_line_chars: "blank_line = [CHR 0x0A, CHR 0x0A]"
  by (simp add: blank_line_def)

text \<open>
  After a genuine label, no fragment is attributed to a spelling of the continuation marker.
\<close>

lemma merge_items_genuine_last:
  assumes "merge_inv st" and "text_answers items"
    and "snd st = Some k" and "lower k \<noteq> ''contd''" and "lower l = ''contd''"
  shows "\<exists>st' k'. merge_items items st = Inr st' \<and> merge_inv st' \<and>
           snd st' = Some k' \<and> lower k' \<noteq> ''contd'' \<and>
           map_of (fst st') l = map_of (fst st) l"
  using assms
proof (induction items arbitrary: st k)
  case Nil
  then show ?case by simp
next
  case (Cons item items)
  from Cons.prems(2) obtain a where a: "answer_of item = VStr a" and rest: "text_answers items"
    by (auto simp: text_answers_def is_text_iff)
  let ?k = "target_label item st"
  let ?st = "(AList.update ?k (VStr (joined (fst st) ?k a)) (fst st), Some ?k)"
  have step: "merge_item item st = Inr ?st"
    by (rule merge_item_step [OF Cons.prems(1) a])
  have inv': "merge_inv ?st" by (rule merge_inv_step [OF Cons.prems(1)])
  have k: "lower ?k \<noteq> ''contd''"
    using Cons.prems(3,4) by (simp add: target_label_def)
  with Cons.prems(5) have "?k \<noteq> l" by auto
  then have same: "map_of (fst ?st) l = map_of (fst st) l"
    by (simp add: update_conv')
  have last: "snd ?st = Some ?k" by simp
  from Cons.IH [OF inv' rest last k Cons.prems(5)] same step show ?case by auto
qed

lemma merge_items_afresh_marker:
  assumes inv: "merge_inv st" and texts: "text_answers zs" and afresh: "starts_afresh zs"
    and marker: "lower l = ''contd''"
  shows "\<exists>st'. merge_items zs st = Inr st' \<and> merge_inv st' \<and>
           map_of (fst st') l = map_of (fst st) l"
proof (cases zs)
  case Nil
  with inv show ?thesis by simp
next
  case (Cons z zs')
  from texts Cons obtain b where b: "answer_of z = VStr b" and rest: "text_answers zs'"
    by (auto simp: text_answers_def is_text_iff)
  from afresh Cons have real: "lower (question_num_of z) \<noteq> ''contd''"
    by (simp add: starts_afresh_def)
  let ?k = "question_num_of z"
  let ?st = "(AList.update ?k (VStr (joined (fst st) ?k b)) (fst st), Some ?k)"
  have step: "merge_item z st = Inr ?st"
    by (rule merge_item_resume [OF inv b real])
  have inv': "merge_inv ?st" by (rule merge_inv_step [OF inv])
  from real marker have "?k \<noteq> l" by auto
  then have same: "map_of (fst ?st) l = map_of (fst st) l" by (simp add: update_conv')
  have last: "snd ?st = Some ?k" by simp
  from merge_items_genuine_last [OF inv' rest last real marker] same step Cons
  show ?thesis by auto
qed

text \<open>
  A run that begins with a genuine label and has no fragment labelled \<open>l\<close> leaves the entry
  of \<open>l\<close> as it is.
\<close>

lemma merge_items_leaves_alone:
  assumes inv: "merge_inv st" and texts: "text_answers zs" and alone: "leaves_alone l zs"
  shows "\<exists>st'. merge_items zs st = Inr st' \<and> merge_inv st' \<and>
           map_of (fst st') l = map_of (fst st) l"
proof (cases zs)
  case Nil
  with inv show ?thesis by simp
next
  case (Cons z zs')
  from texts Cons obtain b where b: "answer_of z = VStr b" and rest: "text_answers zs'"
    by (auto simp: text_answers_def is_text_iff)
  from alone Cons have real: "lower (question_num_of z) \<noteq> ''contd''"
    and other: "question_num_of z \<noteq> l"
    and others: "list_all (\<lambda>item. question_num_of item \<noteq> l) zs'"
    by (simp_all add: leaves_alone_def starts_afresh_def)
  let ?k = "question_num_of z"
  let ?st = "(AList.update ?k (VStr (joined (fst st) ?k b)) (fst st), Some ?k)"
  have step: "merge_item z st = Inr ?st"
    by (rule merge_item_resume [OF inv b real])
  have inv': "merge_inv ?st" by (rule merge_inv_step [OF inv])
  have same: "map_of (fst ?st) l = map_of (fst st) l"
    using other by (simp add: update_conv')
  have last: "snd ?st \<noteq> Some l" using other by simp
  from merge_items_other [OF inv' rest others last] same step Cons
  show ?thesis by auto
qed

lemma merge_items_tail:
  assumes inv: "merge_inv st" and texts: "text_answers zs"
    and m: "map_of (fst st) l = Some (VStr t)"
  shows "\<exists>st' w. merge_items zs st = Inr st' \<and> merge_inv st' \<and>
           map_of (fst st') l = Some (VStr (t @ w)) \<and> (leaves_alone l zs \<longrightarrow> w = [])"
proof (cases "leaves_alone l zs")
  case True
  from merge_items_leaves_alone [OF inv texts True] m obtain st' where
    "merge_items zs st = Inr st'" "merge_inv st'" "map_of (fst st') l = Some (VStr (t @ []))"
    by auto
  then show ?thesis by blast
next
  case False
  from merge_items_grow [OF inv texts m] obtain st' u where
    "merge_items zs st = Inr st'" "merge_inv st'" "map_of (fst st') l = Some (VStr (t @ u))"
    by blast
  with False show ?thesis by blast
qed

text \<open>
  The fragment at a given place of the scan, and the entry that receives its text.
\<close>

lemma merge_items_occurrence:
  assumes texts: "text_answers (xs @ item # zs)" and a: "answer_of item = VStr a"
  shows "\<exists>st1 st u w.
           merge_items xs ([], None) = Inr st1 \<and> merge_inv st1 \<and>
           merge_items (xs @ item # zs) ([], None) = Inr st \<and> merge_inv st \<and>
           map_of (fst st) (target_label item st1) = Some (VStr (u @ a @ w)) \<and>
           (map_of (fst st1) (target_label item st1) = None \<longrightarrow> u = []) \<and>
           (u = [] \<or> (\<exists>old. u = old @ [CHR 0x0A, CHR 0x0A])) \<and>
           (leaves_alone (target_label item st1) zs \<longrightarrow> w = [])"
proof -
  from texts have t_xs: "text_answers xs" and t_zs: "text_answers zs"
    by (simp_all add: text_answers_append text_answers_Cons)
  from merge_items_total [OF merge_inv_init t_xs] obtain st1 where
    s1: "merge_items xs ([], None) = Inr st1" and inv1: "merge_inv st1" by blast
  let ?k = "target_label item st1"
  define u where "u = (case map_of (fst st1) ?k of Some (VStr old) \<Rightarrow> old @ blank_line | _ \<Rightarrow> [])"
  have ju: "joined (fst st1) ?k a = u @ a"
    by (simp add: joined_def u_def split: option.splits pyval.splits)
  let ?st2 = "(AList.update ?k (VStr (u @ a)) (fst st1), Some ?k)"
  have s2: "merge_item item st1 = Inr ?st2"
    using merge_item_step [OF inv1 a] ju by simp
  have inv2: "merge_inv ?st2" by (rule merge_inv_step [OF inv1])
  have m2: "map_of (fst ?st2) ?k = Some (VStr (u @ a))" by (simp add: update_conv')
  from merge_items_tail [OF inv2 t_zs m2] obtain st w where
    s3: "merge_items zs ?st2 = Inr st" and inv3: "merge_inv st"
    and m3: "map_of (fst st) ?k = Some (VStr ((u @ a) @ w))"
    and w: "leaves_alone ?k zs \<longrightarrow> w = []" by blast
  have run: "merge_items (xs @ item # zs) ([], None) = Inr st"
    using s1 s2 s3 by (simp add: merge_items_append)
  have u1: "map_of (fst st1) ?k = None \<longrightarrow> u = []" by (simp add: u_def)
  have u2: "u = [] \<or> (\<exists>old. u = old @ [CHR 0x0A, CHR 0x0A])"
    by (auto simp: u_def blank_line_chars split: option.splits pyval.splits)
  from s1 inv1 run inv3 m3 u1 u2 w show ?thesis
    by (intro exI [of _ st1] exI [of _ st] exI [of _ u] exI [of _ w]) simp
qed

lemma merge_items_unseen:
  assumes "text_answers xs" and "list_all (\<lambda>item. question_num_of item \<noteq> l) xs"
    and "merge_items xs ([], None) = Inr st1"
  shows "map_of (fst st1) l = None"
  using merge_items_other [OF merge_inv_init assms(1,2)] assms(3) by auto

section \<open>Properties of the merge\<close>

text \<open>
  \<^bold>\<open>C2.\<close> For the single page \<^verbatim>\<open>[("1","a"), (CONT,"b"), ("2","c")]\<close>, where \<open>CONT\<close> is any
  spelling of the continuation marker (a label whose lower-case form is \<^verbatim>\<open>contd\<close>), the
  merge returns \<^verbatim>\<open>{"1": "a\n\nb", "2": "c"}\<close>: the text of the continuation fragment is
  appended to the text of the label seen before it, after a blank line, and the fresh
  label starts a new entry.
\<close>

theorem merge_single_page_example:
  assumes "lower CONT = ''contd''"
  shows "merge_ocr_results
           [Fragments [[(''question_number'', VStr ''1''), (''answer'', VStr ''a'')],
                       [(''question_number'', VStr CONT), (''answer'', VStr ''b'')],
                       [(''question_number'', VStr ''2''), (''answer'', VStr ''c'')]]] =
         Inr [(''1'', VStr (''a'' @ blank_line @ ''b'')), (''2'', VStr ''c'')]"
  using assms
  by (simp add: merge_ocr_results_def merge_item_def Let_def question_num_of_def answer_of_def
      dict_get_def lower_1 lower_2)

theorem merge_single_page_example_witness:
  "lower ''Contd'' = ''contd'' \<and>
   merge_ocr_results
     [Fragments [[(''question_number'', VStr ''1''), (''answer'', VStr ''a'')],
                 [(''question_number'', VStr ''Contd''), (''answer'', VStr ''b'')],
                 [(''question_number'', VStr ''2''), (''answer'', VStr ''c'')]]] =
   Inr [(''1'', VStr [CHR ''a'', CHR 0x0A, CHR 0x0A, CHR ''b'']), (''2'', VStr ''c'')]"
proof -
  have h: "lower ''Contd'' = ''contd''" by (simp add: lower_def lower_char_def)
  show ?thesis using h merge_single_page_example [OF h] by (simp add: blank_line_def)
qed

text \<open>
  A continuation marker that comes before any label is not dropped: the test for
  \<^verbatim>\<open>last_question is not None\<close> fails, and the other branch files the fragment under the
  marker's own spelling.
\<close>

theorem leading_continuation_counterexample:
  "lower ''Contd'' = ''contd'' \<and>
   merge_ocr_results [Fragments [[(''question_number'', VStr ''Contd''), (''answer'', VStr ''x'')]]] =
   Inr [(''Contd'', VStr ''x'')]"
  by (simp add: merge_ocr_results_def merge_item_def Let_def question_num_of_def answer_of_def
      dict_get_def lower_def lower_char_def)

text \<open>
  \<^bold>\<open>C3\<close> (as the code has it). When the first fragment of the scan carries the continuation
  marker and every fragment's answer is a string, the merge raises no error and keeps
  the fragment: the result has an entry under the marker as the fragment spells it. Its
  text is the text of the fragment, followed by the texts of the continuation fragments
  that come right after it, each after a blank line (two newline characters); the
  fragments from the first genuine label on leave it as it is.
\<close>

theorem leading_continuation_kept:
  assumes frags: "fragments_of all_results = item # cs @ rest"
    and marker: "lower (question_num_of item) = ''contd''"
    and ans: "answer_of item = VStr a"
    and conts: "list_all (\<lambda>c. lower (question_num_of c) = ''contd'') cs"
    and afresh: "starts_afresh rest"
    and texts: "text_answers (cs @ rest)"
  shows "\<exists>m. merge_ocr_results all_results = Inr m \<and>
           map_of m (question_num_of item) =
             Some (VStr (a @ concat (map (\<lambda>c. [CHR 0x0A, CHR 0x0A] @ text_of c) cs)))"
proof -
  let ?l = "question_num_of item"
  let ?st1 = "([(?l, VStr a)], Some ?l)"
  from texts have t_cs: "text_answers cs" and t_rest: "text_answers rest"
    by (simp_all add: text_answers_append)
  have first: "merge_item item ([], None) = Inr ?st1"
    using merge_item_step [OF merge_inv_init ans]
    by (simp add: target_label_def joined_def)
  have inv1: "merge_inv ?st1"
    using merge_inv_step [OF merge_inv_init, of ?l a] by simp
  have l1: "snd ?st1 = Some ?l" and m1: "map_of (fst ?st1) ?l = Some (VStr a)" by simp_all
  from merge_items_continued [OF inv1 t_cs conts l1 m1] obtain st2 where
    s2: "merge_items cs ?st1 = Inr st2" and inv2: "merge_inv st2"
    and m2: "map_of (fst st2) ?l =
               Some (VStr (a @ concat (map (\<lambda>item. blank_line @ text_of item) cs)))"
    by blast
  from merge_items_afresh_marker [OF inv2 t_rest afresh marker] obtain st3 where
    s3: "merge_items rest st2 = Inr st3"
    and m3: "map_of (fst st3) ?l = map_of (fst st2) ?l" by blast
  have "merge_items (item # cs @ rest) ([], None) = Inr st3"
    using first s2 s3 by (simp add: merge_items_append)
  with frags have "merge_ocr_results all_results = Inr (fst st3)"
    by (simp add: merge_ocr_results_def merge_pages_fragments)
  with m3 m2 show ?thesis by (simp add: blank_line_chars)
qed

theorem leading_continuation_kept_witness:
  "\<exists>m. merge_ocr_results
       [Not_a_list,
        Fragments [[(''question_number'', VStr ''CONTD''), (''answer'', VStr ''x'')],
                   [(''question_number'', VStr ''contd''), (''answer'', VStr ''y'')],
                   [(''question_number'', VStr ''1''), (''answer'', VStr ''z'')],
                   [(''question_number'', VStr ''Contd''), (''answer'', VStr ''q'')]]] = Inr m \<and>
      map_of m ''CONTD'' = Some (VStr [CHR ''x'', CHR 0x0A, CHR 0x0A, CHR ''y''])"
proof -
  let ?item = "[(''question_number'', VStr ''CONTD''), (''answer'', VStr ''x'')]"
  let ?c = "[(''question_number'', VStr ''contd''), (''answer'', VStr ''y'')]"
  let ?r1 = "[(''question_number'', VStr ''1''), (''answer'', VStr ''z'')]"
  let ?r2 = "[(''question_number'', VStr ''Contd''), (''answer'', VStr ''q'')]"
  have h1: "fragments_of [Not_a_list, Fragments [?item, ?c, ?r1, ?r2]] = ?item # [?c] @ [?r1, ?r2]"
    by simp
  have h2: "lower (question_num_of ?item) = ''contd''"
    by (simp add: question_num_of_def dict_get_def lower_def lower_char_def)
  have h3: "answer_of ?item = VStr ''x''" by (simp add: answer_of_def dict_get_def)
  have h4: "list_all (\<lambda>item. lower (question_num_of item) = ''contd'') [?c]"
    by (simp add: question_num_of_def dict_get_def lower_def lower_char_def)
  have h5: "starts_afresh [?r1, ?r2]"
    by (simp add: starts_afresh_def question_num_of_def dict_get_def lower_def lower_char_def)
  have h6: "text_answers ([?c] @ [?r1, ?r2])"
    by (simp add: text_answers_def answer_of_def dict_get_def is_text_def)
  have q: "question_num_of ?item = ''CONTD''" by (simp add: question_num_of_def dict_get_def)
  have t: "text_of ?c = ''y''" by (simp add: text_of_def answer_of_def dict_get_def)
  from leading_continuation_kept [OF h1 h2 h3 h4 h5 h6]
  show ?thesis by (simp add: q t)
qed

text \<open>
  \<^bold>\<open>C7.\<close> Let a label \<open>l\<close> (not the continuation marker) occur on two fragments, wherever
  the page boundaries fall, with a fragment of another genuine label between them and no
  fragment labelled \<open>l\<close> between that one and the second occurrence; the first occurrence
  may have continuation fragments of its own before the other label. All answers are
  strings. Then the merge returns a mapping with one entry per key, in which, under
  \<open>l\<close>, the text of the first occurrence (with its continuations, each after two newline
  characters) is followed by two newline characters and the text of the second
  occurrence. What precedes the first text is empty when \<open>l\<close> was not seen earlier and
  ends with the separator otherwise; what follows the second text is empty when the rest
  of the scan begins with another genuine label and has no fragment labelled \<open>l\<close>.
\<close>

theorem resumed_label_concatenated:
  assumes frags: "fragments_of all_results = xs @ fa # cs @ fb # ys @ fc # zs"
    and texts: "text_answers (fragments_of all_results)"
    and la: "question_num_of fa = l" and lc: "question_num_of fc = l"
    and real: "lower l \<noteq> ''contd''"
    and continued: "list_all (\<lambda>item. lower (question_num_of item) = ''contd'') cs"
    and other: "question_num_of fb \<noteq> l" and other_real: "lower (question_num_of fb) \<noteq> ''contd''"
    and between: "list_all (\<lambda>item. question_num_of item \<noteq> l) ys"
    and a: "answer_of fa = VStr a" and c: "answer_of fc = VStr c"
  shows "\<exists>m u w. merge_ocr_results all_results = Inr m \<and> distinct (map fst m) \<and>
           map_of m l =
             Some (VStr (u @ a @ concat (map (\<lambda>item. [CHR 0x0A, CHR 0x0A] @ text_of item) cs) @
                         [CHR 0x0A, CHR 0x0A] @ c @ w)) \<and>
           (list_all (\<lambda>item. question_num_of item \<noteq> l) xs \<longrightarrow> u = []) \<and>
           (u = [] \<or> (\<exists>old. u = old @ [CHR 0x0A, CHR 0x0A])) \<and>
           (leaves_alone l zs \<longrightarrow> w = [])"
proof -
  let ?v = "concat (map (\<lambda>item. blank_line @ text_of item) cs)"
  from texts frags have t_xs: "text_answers xs" and t_cs: "text_answers cs"
    and t_fb: "is_text (answer_of fb)"
    and t_ys: "text_answers ys" and t_zs: "text_answers zs"
    by (simp_all add: text_answers_append text_answers_Cons)
  from t_fb obtain b where b: "answer_of fb = VStr b" by (auto simp: is_text_iff)
  \<comment> \<open>the fragments before the first occurrence\<close>
  from merge_items_total [OF merge_inv_init t_xs] obtain st1 where
    s1: "merge_items xs ([], None) = Inr st1" and inv1: "merge_inv st1" by blast
  have fresh: "list_all (\<lambda>item. question_num_of item \<noteq> l) xs \<Longrightarrow> map_of (fst st1) l = None"
    by (rule merge_items_unseen [OF t_xs _ s1])
  \<comment> \<open>the first occurrence\<close>
  define u where "u = (case map_of (fst st1) l of Some (VStr old) \<Rightarrow> old @ blank_line | _ \<Rightarrow> [])"
  have ju: "joined (fst st1) l a = u @ a"
    by (simp add: joined_def u_def split: option.splits pyval.splits)
  let ?st2 = "(AList.update l (VStr (u @ a)) (fst st1), Some l)"
  have s2: "merge_item fa st1 = Inr ?st2"
    using merge_item_resume [OF inv1 a] real la ju by simp
  have inv2: "merge_inv ?st2" by (rule merge_inv_step [OF inv1])
  have l2: "snd ?st2 = Some l" and m2: "map_of (fst ?st2) l = Some (VStr (u @ a))"
    by (simp_all add: update_conv')
  \<comment> \<open>its continuation fragments\<close>
  from merge_items_continued [OF inv2 t_cs continued l2 m2] obtain st2' where
    s2': "merge_items cs ?st2 = Inr st2'" and inv2': "merge_inv st2'"
    and m2': "map_of (fst st2') l = Some (VStr ((u @ a) @ ?v))" by blast
  \<comment> \<open>the unrelated label\<close>
  let ?k = "question_num_of fb"
  let ?st3 = "(AList.update ?k (VStr (joined (fst st2') ?k b)) (fst st2'), Some ?k)"
  have s3: "merge_item fb st2' = Inr ?st3"
    by (rule merge_item_resume [OF inv2' b other_real])
  have inv3: "merge_inv ?st3" by (rule merge_inv_step [OF inv2'])
  have m3: "map_of (fst ?st3) l = Some (VStr ((u @ a) @ ?v))" and last3: "snd ?st3 \<noteq> Some l"
    using other m2' by (simp_all add: update_conv')
  \<comment> \<open>the other fragments in between\<close>
  from merge_items_other [OF inv3 t_ys between last3] obtain st4 where
    s4: "merge_items ys ?st3 = Inr st4" and inv4: "merge_inv st4"
    and m4: "map_of (fst st4) l = map_of (fst ?st3) l" by blast
  \<comment> \<open>the second occurrence\<close>
  have j4: "joined (fst st4) l c = ((u @ a) @ ?v) @ blank_line @ c"
    using m4 m3 by (simp add: joined_def)
  let ?st5 = "(AList.update l (VStr (((u @ a) @ ?v) @ blank_line @ c)) (fst st4), Some l)"
  have s5: "merge_item fc st4 = Inr ?st5"
    using merge_item_resume [OF inv4 c] real lc j4 by simp
  have inv5: "merge_inv ?st5" by (rule merge_inv_step [OF inv4])
  have m5: "map_of (fst ?st5) l = Some (VStr (((u @ a) @ ?v) @ blank_line @ c))"
    by (simp add: update_conv')
  \<comment> \<open>the fragments after it\<close>
  from merge_items_tail [OF inv5 t_zs m5] obtain st6 w where
    s6: "merge_items zs ?st5 = Inr st6" and inv6: "merge_inv st6"
    and m6: "map_of (fst st6) l = Some (VStr ((((u @ a) @ ?v) @ blank_line @ c) @ w))"
    and w: "leaves_alone l zs \<longrightarrow> w = []" by blast
  have run: "merge_items (xs @ fa # cs @ fb # ys @ fc # zs) ([], None) = Inr st6"
    using s1 s2 s2' s3 s4 s5 s6 by (simp add: merge_items_append)
  have res: "merge_ocr_results all_results = Inr (fst st6)"
    using run frags by (simp add: merge_ocr_results_def merge_pages_fragments)
  have empty: "list_all (\<lambda>item. question_num_of item \<noteq> l) xs \<longrightarrow> u = []"
    using fresh by (auto simp: u_def)
  have u2: "u = [] \<or> (\<exists>old. u = old @ [CHR 0x0A, CHR 0x0A])"
    by (auto simp: u_def blank_line_chars split: option.splits pyval.splits)
  have m6': "map_of (fst st6) l =
      Some (VStr (u @ a @ concat (map (\<lambda>item. [CHR 0x0A, CHR 0x0A] @ text_of item) cs) @
                  [CHR 0x0A, CHR 0x0A] @ c @ w))"
    using m6 by (simp add: blank_line_chars)
  from res merge_inv_distinct [OF inv6] m6' empty u2 w show ?thesis
    by (intro exI [of _ "fst st6"] exI [of _ u] exI [of _ w]) simp
qed

theorem resumed_label_concatenated_witness:
  "\<exists>m. merge_ocr_results
       [Fragments [[(''question_number'', VStr ''1''), (''answer'', VStr ''a'')]],
        Fragments [[(''question_number'', VStr ''Contd''), (''answer'', VStr ''x'')],
                   [(''question_number'', VStr ''2''), (''answer'', VStr ''b'')]],
        Fragments [[(''question_number'', VStr ''1''), (''answer'', VStr ''c'')]]] = Inr m \<and>
     distinct (map fst m) \<and>
     map_of m ''1'' =
       Some (VStr [CHR ''a'', CHR 0x0A, CHR 0x0A, CHR ''x'', CHR 0x0A, CHR 0x0A, CHR ''c''])"
proof -
  let ?fa = "[(''question_number'', VStr ''1''), (''answer'', VStr ''a'')]"
  let ?fx = "[(''question_number'', VStr ''Contd''), (''answer'', VStr ''x'')]"
  let ?fb = "[(''question_number'', VStr ''2''), (''answer'', VStr ''b'')]"
  let ?fc = "[(''question_number'', VStr ''1''), (''answer'', VStr ''c'')]"
  let ?pages = "[Fragments [?fa], Fragments [?fx, ?fb], Fragments [?fc]]"
  have h1: "fragments_of ?pages = [] @ ?fa # [?fx] @ ?fb # [] @ ?fc # []" by simp
  have h2: "text_answers (fragments_of ?pages)"
    by (simp add: text_answers_def answer_of_def dict_get_def is_text_def)
  have h3: "question_num_of ?fa = ''1''" and h4: "question_num_of ?fc = ''1''"
    and h6: "question_num_of ?fb \<noteq> ''1''"
    and h7: "lower (question_num_of ?fb) \<noteq> ''contd''"
    by (simp_all add: question_num_of_def dict_get_def lower_def lower_char_def)
  have h5: "lower ''1'' \<noteq> ''contd''" by (simp add: lower_def lower_char_def)
  have hc: "list_all (\<lambda>item. lower (question_num_of item) = ''contd'') [?fx]"
    by (simp add: question_num_of_def dict_get_def lower_def lower_char_def)
  have h8: "list_all (\<lambda>item. question_num_of item \<noteq> ''1'') []" by simp
  have h9: "answer_of ?fa = VStr ''a''" and h10: "answer_of ?fc = VStr ''c''"
    by (simp_all add: answer_of_def dict_get_def)
  have tx: "text_of ?fx = ''x''" by (simp add: text_of_def answer_of_def dict_get_def)
  have la: "leaves_alone ''1'' []" by (simp add: leaves_alone_def starts_afresh_def)
  from resumed_label_concatenated [OF h1 h2 h3 h4 h5 hc h6 h7 h8 h9 h10] la
  show ?thesis by (auto simp: tx)
qed

text \<open>
  \<^bold>\<open>C10.\<close> Take a fragment record anywhere in a scan whose answers are strings. If it has
  no \<^verbatim>\<open>question_number\<close> field, the returned mapping has the key \<^verbatim>\<open>Unknown\<close>, and the
  text under that key contains the text of the record: at its beginning when no earlier
  fragment is labelled \<^verbatim>\<open>Unknown\<close>, after the separator otherwise, and up to its end when
  the rest of the scan leaves that entry alone. If the record has no \<^verbatim>\<open>answer\<close> field,
  the text \<^verbatim>\<open>No answer extracted\<close> is in the mapping in the same way, under the label of
  the record when that label is genuine or the record comes first. In both cases the
  merge is the same as when the record is replaced by one that carries the label and
  the text so read explicitly.
\<close>

theorem sentinel_values:
  assumes frags: "fragments_of all_results = xs @ item # zs"
    and texts: "text_answers (fragments_of all_results)"
  shows "\<exists>m. merge_ocr_results all_results = Inr m \<and>
    (map_of item ''question_number'' = None \<longrightarrow>
       (\<exists>u w. map_of m ''Unknown'' = Some (VStr (u @ text_of item @ w)) \<and>
          (list_all (\<lambda>other. question_num_of other \<noteq> ''Unknown'') xs \<longrightarrow> u = []) \<and>
          (u = [] \<or> (\<exists>old. u = old @ [CHR 0x0A, CHR 0x0A])) \<and>
          (leaves_alone ''Unknown'' zs \<longrightarrow> w = []))) \<and>
    (map_of item ''answer'' = None \<longrightarrow>
       (\<exists>k u w. map_of m k = Some (VStr (u @ ''No answer extracted'' @ w)) \<and>
          (lower (question_num_of item) \<noteq> ''contd'' \<or> xs = [] \<longrightarrow> k = question_num_of item) \<and>
          (list_all (\<lambda>other. question_num_of other \<noteq> k) xs \<longrightarrow> u = []) \<and>
          (u = [] \<or> (\<exists>old. u = old @ [CHR 0x0A, CHR 0x0A])) \<and>
          (leaves_alone k zs \<longrightarrow> w = []))) \<and>
    merge_ocr_results all_results =
      merge_ocr_results
        [Fragments (xs @ [(''question_number'', VStr (question_num_of item)),
                           (''answer'', answer_of item)] # zs)]"
proof -
  from texts frags obtain a where a: "answer_of item = VStr a"
    and t_all: "text_answers (xs @ item # zs)" and t_xs: "text_answers xs"
    by (auto simp: text_answers_append text_answers_Cons is_text_iff)
  have ta: "text_of item = a" using a by (simp add: text_of_def)
  from merge_items_occurrence [OF t_all a] obtain st1 st u w where
    s1: "merge_items xs ([], None) = Inr st1" and inv1: "merge_inv st1"
    and run: "merge_items (xs @ item # zs) ([], None) = Inr st"
    and m: "map_of (fst st) (target_label item st1) = Some (VStr (u @ a @ w))"
    and u1: "map_of (fst st1) (target_label item st1) = None \<longrightarrow> u = []"
    and u2: "u = [] \<or> (\<exists>old. u = old @ [CHR 0x0A, CHR 0x0A])"
    and w: "leaves_alone (target_label item st1) zs \<longrightarrow> w = []"
    by (elim exE conjE) (rule that)
  have res: "merge_ocr_results all_results = Inr (fst st)"
    using run frags by (simp add: merge_ocr_results_def merge_pages_fragments)
  have real_target: "target_label item st1 = question_num_of item"
    if "lower (question_num_of item) \<noteq> ''contd''"
    using that by (simp add: target_label_def split: option.splits)
  have first_target: "target_label item st1 = question_num_of item" if "xs = []"
  proof -
    from that s1 have "st1 = ([], None)" by simp
    then show ?thesis by (simp add: target_label_def)
  qed
  have unseen: "list_all (\<lambda>other. question_num_of other \<noteq> k) xs \<longrightarrow> map_of (fst st1) k = None" for k
    using merge_items_unseen [OF t_xs _ s1, of k] by blast
  \<comment> \<open>a record without a question number\<close>
  have unknown: "\<exists>u w. map_of (fst st) ''Unknown'' = Some (VStr (u @ text_of item @ w)) \<and>
          (list_all (\<lambda>other. question_num_of other \<noteq> ''Unknown'') xs \<longrightarrow> u = []) \<and>
          (u = [] \<or> (\<exists>old. u = old @ [CHR 0x0A, CHR 0x0A])) \<and>
          (leaves_alone ''Unknown'' zs \<longrightarrow> w = [])"
    if none: "map_of item ''question_number'' = None"
  proof -
    from none have q: "question_num_of item = ''Unknown''"
      by (simp add: question_num_of_def dict_get_def)
    have "lower ''Unknown'' \<noteq> ''contd''" by (simp add: lower_def lower_char_def)
    with q real_target have k: "target_label item st1 = ''Unknown''" by simp
    have "list_all (\<lambda>other. question_num_of other \<noteq> ''Unknown'') xs \<longrightarrow> u = []"
      using unseen [of "''Unknown''"] u1 k by auto
    with m u2 w k ta show ?thesis by auto
  qed
  \<comment> \<open>a record without an answer\<close>
  have no_answer: "\<exists>k u w. map_of (fst st) k = Some (VStr (u @ ''No answer extracted'' @ w)) \<and>
          (lower (question_num_of item) \<noteq> ''contd'' \<or> xs = [] \<longrightarrow> k = question_num_of item) \<and>
          (list_all (\<lambda>other. question_num_of other \<noteq> k) xs \<longrightarrow> u = []) \<and>
          (u = [] \<or> (\<exists>old. u = old @ [CHR 0x0A, CHR 0x0A])) \<and>
          (leaves_alone k zs \<longrightarrow> w = [])"
    if none: "map_of item ''answer'' = None"
  proof -
    from none a have "a = ''No answer extracted''"
      by (simp add: answer_of_def dict_get_def)
    moreover have "list_all (\<lambda>i. question_num_of i \<noteq> target_label item st1) xs \<longrightarrow> u = []"
      using unseen [of "target_label item st1"] u1 by blast
    ultimately show ?thesis
      using m u2 w real_target first_target
      by (intro exI [of _ "target_label item st1"] exI [of _ u] exI [of _ w]) auto
  qed
  \<comment> \<open>the same record with both fields written out\<close>
  let ?genuine = "[(''question_number'', VStr (question_num_of item)), (''answer'', answer_of item)]"
  have q: "question_num_of item = question_num_of ?genuine"
    by (simp add: question_num_of_def [of ?genuine] dict_get_def)
  have an: "answer_of item = answer_of ?genuine"
    by (simp add: answer_of_def [of ?genuine] dict_get_def)
  have same: "merge_ocr_results all_results = merge_ocr_results [Fragments (xs @ ?genuine # zs)]"
    using merge_items_cong_item [OF q an, of xs zs "([], None)"] frags
    by (simp add: merge_ocr_results_def merge_pages_fragments)
  from res unknown no_answer same show ?thesis
    by (intro exI [of _ "fst st"]) simp
qed

theorem sentinel_values_witness:
  "\<exists>m. merge_ocr_results
          [Fragments [[(''answer'', VStr ''x'')]],
           Fragments [[(''question_number'', VStr ''7'')]]] = Inr m \<and>
        map_of m ''Unknown'' = Some (VStr ''x'') \<and>
        map_of m ''7'' = Some (VStr ''No answer extracted'')"
proof -
  let ?i1 = "[(''answer'', VStr ''x'')]"
  let ?i2 = "[(''question_number'', VStr ''7'')]"
  let ?pages = "[Fragments [?i1], Fragments [?i2]]"
  have f1: "fragments_of ?pages = [] @ ?i1 # [?i2]" and f2: "fragments_of ?pages = [?i1] @ ?i2 # []"
    by simp_all
  have t: "text_answers (fragments_of ?pages)"
    by (simp add: text_answers_def answer_of_def dict_get_def is_text_def)
  have n1: "map_of ?i1 ''question_number'' = None" and n2: "map_of ?i2 ''answer'' = None"
    by simp_all
  have q2: "question_num_of ?i2 = ''7''" by (simp add: question_num_of_def dict_get_def)
  have r2: "lower (question_num_of ?i2) \<noteq> ''contd''"
    by (simp add: q2 lower_def lower_char_def)
  have x: "text_of ?i1 = ''x''" by (simp add: text_of_def answer_of_def dict_get_def)
  have a1: "leaves_alone ''Unknown'' [?i2]"
    by (simp add: leaves_alone_def starts_afresh_def q2 lower_def lower_char_def)
  have a2: "leaves_alone k []" for k by (simp add: leaves_alone_def starts_afresh_def)
  have u2: "map_of ?i2 ''question_number'' \<noteq> None" by simp
  from sentinel_values [OF f1 t] n1 a1 obtain m where
    m: "merge_ocr_results ?pages = Inr m" and m1: "map_of m ''Unknown'' = Some (VStr ''x'')"
    by (auto simp: x)
  have fr: "list_all (\<lambda>item. question_num_of item \<noteq> ''7'') [?i1]"
    by (simp add: question_num_of_def dict_get_def)
  from sentinel_values [OF f2 t] n2 r2 a2 m fr
  have "map_of m ''7'' = Some (VStr ''No answer extracted'')"
    by (auto simp: q2)
  with m m1 show ?thesis by blast
qed

section \<open>Dictionaries, the grading loop and sums\<close>

lemma map_of_fold_update:
  "distinct (map fst b) \<Longrightarrow>
   map_of (fold (\<lambda>(k, v). AList.update k v) b a) = map_of a ++ map_of b"
proof (induction b arbitrary: a)
  case Nil
  then show ?case by simp
next
  case (Cons p b)
  obtain k v where p: "p = (k, v)" by (cases p)
  from Cons.prems p have k: "k \<notin> dom (map_of b)" and d: "distinct (map fst b)"
    by (auto simp: dom_map_of_conv_image_fst)
  have "map_of (fold (\<lambda>(k, v). AList.update k v) (p # b) a) =
        map_of (AList.update k v a) ++ map_of b"
    using Cons.IH [OF d, of "AList.update k v a"] p by simp
  also have "\<dots> = (map_of a)(k \<mapsto> v) ++ map_of b"
    by (simp only: update_conv')
  also have "\<dots> = (map_of a ++ map_of b)(k \<mapsto> v)"
    using k by (rule map_add_upd_left)
  also have "\<dots> = map_of a ++ map_of (p # b)"
    using p by simp
  finally show ?case .
qed

lemma map_of_dict_merge: "map_of (dict_merge a b) = map_of a ++ map_of b"
  by (simp add: dict_merge_def map_of_fold_update map_of_clearjunk)

lemma length_grading_results: "length (grading_results gemini n grading_data) = length grading_data"
  by (induction grading_data arbitrary: n) simp_all

lemma nth_grading_results:
  "i < length grading_data \<Longrightarrow>
   grading_results gemini n grading_data ! i = grade_one (gemini (n + i)) (grading_data ! i)"
proof (induction grading_data arbitrary: n i)
  case Nil
  then show ?case by simp
next
  case (Cons q qs)
  then show ?case by (cases i) simp_all
qed

lemma failed_grading_fields:
  "map_of (failed_grading q e) ''error'' = Some (VStr e)"
  "map_of (failed_grading q e) ''marks_awarded'' = Some (VInt 0)"
  "map_of (failed_grading q e) ''explanation'' = Some (VStr ''Error during grading'')"
  by (simp_all add: failed_grading_def map_of_dict_merge)

lemma grade_one_raises: "api q = Call_raises e \<Longrightarrow> grade_one api q = failed_grading q e"
  by (simp add: grade_one_def grade_answer_def)

lemma grade_one_non_object:
  "api q = Json_non_object ty \<Longrightarrow> grade_one api q = failed_grading q (not_a_mapping ty)"
  by (simp add: grade_one_def grade_answer_def)

lemma grade_one_object: "api q = Json_object r \<Longrightarrow> grade_one api q = dict_merge q r"
  by (simp add: grade_one_def grade_answer_def)

lemma grade_one_invalid:
  "api q = Invalid_json raw \<Longrightarrow>
   grade_one api q =
     dict_merge q [(''error'', VStr ''Failed to parse grading results''), (''raw_response'', VStr raw)]"
  by (simp add: grade_one_def grade_answer_def)

lemma assemble_map_filter:
  "assemble sa gl pp qs = map (question_data_of sa gl pp) (filter (\<lambda>q. q_num_of q \<noteq> []) qs)"
  by (induction qs) simp_all

lemma prepare_grading_data_lists:
  assumes "merged_answers s = Some sa" and "question_paper_json s = Some (Payload_list qs)"
    and "grading_scheme_json s = Some (Payload_list gs)"
  shows "prepare_grading_data s =
           Some (assemble sa (gs_lookup_of gs) (case user_notes s of None \<Rightarrow> [] | Some notes \<Rightarrow> notes) qs)"
  using assms by (simp add: prepare_grading_data_def)

lemma map_of_fold_rubric:
  "map_of (fold (\<lambda>item d. AList.update (py_str (dict_get item ''question_number'' VNone))
                       (dict_get item ''grading_scheme'' (VStr [])) d) gs acc) k = None \<longleftrightarrow>
   map_of acc k = None \<and> (\<forall>item \<in> set gs. py_str (dict_get item ''question_number'' VNone) \<noteq> k)"
  by (induction gs arbitrary: acc) (auto simp: update_conv')

lemma gs_lookup_absent:
  "map_of (gs_lookup_of gs) k = None \<longleftrightarrow>
   (\<forall>item \<in> set gs. py_str (dict_get item ''question_number'' VNone) \<noteq> k)"
  by (simp add: gs_lookup_of_def map_of_fold_rubric)

lemma question_data_fields:
  "map_of (question_data_of sa gl pp q) ''question_num'' = Some (VStr (q_num_of q))"
  "map_of (question_data_of sa gl pp q) ''marks'' = Some (dict_get q ''marks'' (VInt 5))"
  "map_of (question_data_of sa gl pp q) ''student_answer'' = Some (dict_get sa (q_num_of q) (VStr []))"
  "map_of (question_data_of sa gl pp q) ''grading_scheme'' = Some (dict_get gl (q_num_of q) (VStr []))"
  by (simp_all add: question_data_of_def Let_def)

lemma is_int_iff: "is_int v \<longleftrightarrow> (\<exists>i. v = VInt i)"
  by (cases v) (simp_all add: is_int_def)

lemma leading_numbers_ints:
  "list_all is_int vs \<Longrightarrow> leading_numbers vs = map (\<lambda>v. NInt (int_of v)) vs"
  by (induction vs) (auto simp: is_int_iff)

lemma ints_of_NInt: "ints_of (map (\<lambda>v. NInt (f v)) vs) = Some (map f vs)"
  by (induction vs) simp_all

lemma py_sum_ints:
  "list_all is_int vs \<Longrightarrow> py_sum fl vs = Inr (NInt (sum_list (map int_of vs)))"
  by (simp add: py_sum_def leading_numbers_ints sum_numbers_def ints_of_NInt)

lemma leading_numbers_numbers:
  "list_all is_number vs \<Longrightarrow> leading_numbers vs = map number_of vs"
proof (induction vs)
  case Nil
  then show ?case by simp
next
  case (Cons v vs)
  then show ?case by (cases v) (simp_all add: is_number_def)
qed

lemma ints_of_with_float:
  "list_all is_number vs \<Longrightarrow> \<not> list_all is_int vs \<Longrightarrow> ints_of (map number_of vs) = None"
proof (induction vs)
  case Nil
  then show ?case by simp
next
  case (Cons v vs)
  then show ?case by (cases v) (auto simp: is_number_def is_int_def)
qed

lemma py_sum_floats:
  assumes "list_all is_number vs" and "\<not> list_all is_int vs"
  shows "py_sum fl vs =
           (case float_sum fl (map number_of vs) of Inl e \<Rightarrow> Inl e | Inr x \<Rightarrow> Inr (NFloat x))"
  using assms
  by (simp add: py_sum_def leading_numbers_numbers sum_numbers_def ints_of_with_float
      split: sum.splits)

lemma total_score_unfold:
  assumes "results \<noteq> []"
    and "py_sum fl (map (\<lambda>r. dict_get r ''marks_awarded'' (VInt 0)) results) = Inr a"
    and "py_sum fl (map (\<lambda>r. dict_get r ''marks'' (VInt 0)) results) = Inr p"
  shows "total_score fl results =
           Some (if num_truthy p
                 then (case true_div fl a p of
                         Inl e \<Rightarrow> Inl e
                       | Inr q \<Rightarrow> Inr \<lparr>awarded = a, possible = p, percentage = NFloat (mul_100 fl q)\<rparr>)
                 else Inr \<lparr>awarded = a, possible = p, percentage = NInt 0\<rparr>)"
  using assms by (simp add: total_score_def)

lemma total_score_sums_of:
  assumes "total_score fl results = Some (Inr sc)"
  shows "py_sum fl (map (\<lambda>r. dict_get r ''marks_awarded'' (VInt 0)) results) = Inr (awarded sc) \<and>
         py_sum fl (map (\<lambda>r. dict_get r ''marks'' (VInt 0)) results) = Inr (possible sc)"
  using assms
  by (auto simp: total_score_def split: if_splits sum.splits)

lemma grade_one_keeps_marks:
  assumes "\<forall>r. api q = Json_object r \<longrightarrow> map_of r ''marks'' = None"
  shows "map_of (grade_one api q) ''marks'' = map_of q ''marks''"
proof (cases "api q")
  case (Call_raises e)
  then show ?thesis
    by (simp add: grade_one_raises failed_grading_def map_of_dict_merge map_add_def)
next
  case (Invalid_json raw)
  then show ?thesis
    by (simp add: grade_one_invalid map_of_dict_merge map_add_def)
next
  case (Json_object r)
  with assms have "map_of r ''marks'' = None" by simp
  with Json_object show ?thesis
    by (simp add: grade_one_object map_of_dict_merge map_add_def)
next
  case (Json_non_object ty)
  then show ?thesis
    by (simp add: grade_one_non_object failed_grading_def map_of_dict_merge map_add_def)
qed

lemma results_keep_marks:
  assumes "\<forall>i < length gd. \<forall>r. gemini i (gd ! i) = Json_object r \<longrightarrow> map_of r ''marks'' = None"
  shows "map (\<lambda>r. dict_get r ''marks'' (VInt 0)) (grading_results gemini 0 gd) =
         map (\<lambda>q. dict_get q ''marks'' (VInt 0)) gd"
proof (rule nth_equalityI)
  show "length (map (\<lambda>r. dict_get r ''marks'' (VInt 0)) (grading_results gemini 0 gd)) =
        length (map (\<lambda>q. dict_get q ''marks'' (VInt 0)) gd)"
    by (simp add: length_grading_results)
next
  fix i
  assume "i < length (map (\<lambda>r. dict_get r ''marks'' (VInt 0)) (grading_results gemini 0 gd))"
  then have i: "i < length gd" by (simp add: length_grading_results)
  with assms have "\<forall>r. gemini i (gd ! i) = Json_object r \<longrightarrow> map_of r ''marks'' = None" by simp
  from grade_one_keeps_marks [of "gemini i" "gd ! i", OF this] i
  show "map (\<lambda>r. dict_get r ''marks'' (VInt 0)) (grading_results gemini 0 gd) ! i =
        map (\<lambda>q. dict_get q ''marks'' (VInt 0)) gd ! i"
    by (simp add: length_grading_results nth_grading_results dict_get_def)
qed

lemma assemble_marks:
  "map (\<lambda>q. dict_get q ''marks'' (VInt 0)) (assemble sa gl pp qs) =
   map (\<lambda>q. dict_get q ''marks'' (VInt 5)) (filter (\<lambda>q. q_num_of q \<noteq> []) qs)"
  by (simp add: assemble_map_filter o_def dict_get_def [of "question_data_of _ _ _ _"]
      question_data_fields)

section \<open>Properties of the grading pipeline\<close>

text \<open>
  A reply that is not valid JSON does not reach the \<^verbatim>\<open>except\<close> branch of the page:
  \<^verbatim>\<open>grade_answer\<close> turns it into a dictionary with the keys \<^verbatim>\<open>error\<close> and
  \<^verbatim>\<open>raw_response\<close>, and the result has neither \<^verbatim>\<open>marks_awarded\<close> nor
  \<^verbatim>\<open>explanation\<close>.
\<close>

theorem unparsable_payload_counterexample:
  "grading_results always_invalid_json 0
     [[(''question_num'', VStr ''1''), (''question'', VStr ''Q''), (''marks'', VInt 5),
       (''student_answer'', VStr ''A''), (''grading_scheme'', VStr ''G''),
       (''relevant_lecture_text'', VStr []), (''professor_prompt'', VStr [])]] =
     [[(''question_num'', VStr ''1''), (''question'', VStr ''Q''), (''marks'', VInt 5),
       (''student_answer'', VStr ''A''), (''grading_scheme'', VStr ''G''),
       (''relevant_lecture_text'', VStr []), (''professor_prompt'', VStr []),
       (''error'', VStr ''Failed to parse grading results''),
       (''raw_response'', VStr ''not json'')]] \<and>
   map_of (grading_results always_invalid_json 0
     [[(''question_num'', VStr ''1''), (''question'', VStr ''Q''), (''marks'', VInt 5),
       (''student_answer'', VStr ''A''), (''grading_scheme'', VStr ''G''),
       (''relevant_lecture_text'', VStr []), (''professor_prompt'', VStr [])]] ! 0)
     ''marks_awarded'' = None"
  by (simp add: grade_one_def grade_answer_def always_invalid_json_def dict_merge_def)

text \<open>
  \<^bold>\<open>C1\<close> (as the code has it). For \<open>N\<close> requests and any behaviour of the model, the loop
  returns \<open>N\<close> results, and the result at each position is computed from the request and
  the reply at that position alone; a reply that decodes to an object is merged into its
  request. If the call for request \<open>k\<close> raises, or the reply decodes to a value that is
  not an object, the result at \<open>k\<close> is the request with \<^verbatim>\<open>marks_awarded = 0\<close>, the
  explanation \<^verbatim>\<open>Error during grading\<close> and \<^verbatim>\<open>error\<close> set to the text of the exception.
  If the reply is not valid JSON, the result at \<open>k\<close> is the request with \<^verbatim>\<open>error\<close> set to
  \<^verbatim>\<open>Failed to parse grading results\<close> and \<^verbatim>\<open>raw_response\<close> set to the reply, and with
  the \<^verbatim>\<open>marks_awarded\<close> and \<^verbatim>\<open>explanation\<close> fields of the request, if any.
\<close>

theorem grading_failure_isolated:
  assumes k: "k < length grading_data"
  shows "length (grading_results gemini 0 grading_data) = length grading_data \<and>
    (\<forall>e. gemini k (grading_data ! k) = Call_raises e \<longrightarrow>
       grading_results gemini 0 grading_data ! k = failed_grading (grading_data ! k) e \<and>
       map_of (grading_results gemini 0 grading_data ! k) ''marks_awarded'' = Some (VInt 0) \<and>
       map_of (grading_results gemini 0 grading_data ! k) ''explanation'' =
         Some (VStr ''Error during grading'') \<and>
       map_of (grading_results gemini 0 grading_data ! k) ''error'' = Some (VStr e)) \<and>
    (\<forall>ty. gemini k (grading_data ! k) = Json_non_object ty \<longrightarrow>
       grading_results gemini 0 grading_data ! k =
         failed_grading (grading_data ! k) (not_a_mapping ty) \<and>
       map_of (grading_results gemini 0 grading_data ! k) ''marks_awarded'' = Some (VInt 0) \<and>
       map_of (grading_results gemini 0 grading_data ! k) ''explanation'' =
         Some (VStr ''Error during grading'') \<and>
       map_of (grading_results gemini 0 grading_data ! k) ''error'' =
         Some (VStr (not_a_mapping ty))) \<and>
    (\<forall>raw. gemini k (grading_data ! k) = Invalid_json raw \<longrightarrow>
       map_of (grading_results gemini 0 grading_data ! k) ''error'' =
         Some (VStr ''Failed to parse grading results'') \<and>
       map_of (grading_results gemini 0 grading_data ! k) ''raw_response'' = Some (VStr raw) \<and>
       map_of (grading_results gemini 0 grading_data ! k) ''marks_awarded'' =
         map_of (grading_data ! k) ''marks_awarded'' \<and>
       map_of (grading_results gemini 0 grading_data ! k) ''explanation'' =
         map_of (grading_data ! k) ''explanation'') \<and>
    (\<forall>j < length grading_data.
       grading_results gemini 0 grading_data ! j = grade_one (gemini j) (grading_data ! j) \<and>
       (\<forall>r. gemini j (grading_data ! j) = Json_object r \<longrightarrow>
          grading_results gemini 0 grading_data ! j = dict_merge (grading_data ! j) r))"
proof -
  let ?res = "grading_results gemini 0 grading_data"
  have nth: "?res ! j = grade_one (gemini j) (grading_data ! j)" if "j < length grading_data" for j
    using nth_grading_results [OF that, of gemini 0] by simp
  have raises: "?res ! k = failed_grading (grading_data ! k) e"
    if "gemini k (grading_data ! k) = Call_raises e" for e
    using that nth [OF k] grade_one_raises [of "gemini k" "grading_data ! k" e] by simp
  have other: "?res ! k = failed_grading (grading_data ! k) (not_a_mapping ty)"
    if "gemini k (grading_data ! k) = Json_non_object ty" for ty
    using that nth [OF k] grade_one_non_object [of "gemini k" "grading_data ! k" ty] by simp
  have invalid: "?res ! k = dict_merge (grading_data ! k)
        [(''error'', VStr ''Failed to parse grading results''), (''raw_response'', VStr raw)]"
    if "gemini k (grading_data ! k) = Invalid_json raw" for raw
    using that nth [OF k] grade_one_invalid [of "gemini k" "grading_data ! k" raw] by simp
  have object: "?res ! j = dict_merge (grading_data ! j) r"
    if "j < length grading_data" "gemini j (grading_data ! j) = Json_object r" for j r
    using that nth [OF that(1)] grade_one_object [of "gemini j" "grading_data ! j" r] by simp
  have c1: "length ?res = length grading_data" by (rule length_grading_results)
  have c2: "\<forall>e. gemini k (grading_data ! k) = Call_raises e \<longrightarrow>
       ?res ! k = failed_grading (grading_data ! k) e \<and>
       map_of (?res ! k) ''marks_awarded'' = Some (VInt 0) \<and>
       map_of (?res ! k) ''explanation'' = Some (VStr ''Error during grading'') \<and>
       map_of (?res ! k) ''error'' = Some (VStr e)"
    using raises by (simp add: failed_grading_fields)
  have c3: "\<forall>ty. gemini k (grading_data ! k) = Json_non_object ty \<longrightarrow>
       ?res ! k = failed_grading (grading_data ! k) (not_a_mapping ty) \<and>
       map_of (?res ! k) ''marks_awarded'' = Some (VInt 0) \<and>
       map_of (?res ! k) ''explanation'' = Some (VStr ''Error during grading'') \<and>
       map_of (?res ! k) ''error'' = Some (VStr (not_a_mapping ty))"
    using other by (simp add: failed_grading_fields)
  have c4: "\<forall>raw. gemini k (grading_data ! k) = Invalid_json raw \<longrightarrow>
       map_of (?res ! k) ''error'' = Some (VStr ''Failed to parse grading results'') \<and>
       map_of (?res ! k) ''raw_response'' = Some (VStr raw) \<and>
       map_of (?res ! k) ''marks_awarded'' = map_of (grading_data ! k) ''marks_awarded'' \<and>
       map_of (?res ! k) ''explanation'' = map_of (grading_data ! k) ''explanation''"
    using invalid by (simp add: map_of_dict_merge map_add_def)
  have c5: "\<forall>j < length grading_data.
       ?res ! j = grade_one (gemini j) (grading_data ! j) \<and>
       (\<forall>r. gemini j (grading_data ! j) = Json_object r \<longrightarrow>
          ?res ! j = dict_merge (grading_data ! j) r)"
    using nth object by simp
  from c1 c2 c3 c4 c5 show ?thesis by (intro conjI)
qed

theorem grading_failure_isolated_witness:
  "(0::nat) < length [[(''question_num'', VStr ''1'')], [(''question_num'', VStr ''2'')],
                      [(''question_num'', VStr ''3'')], [(''question_num'', VStr ''4'')]] \<and>
   mixed_replies 0 [(''question_num'', VStr ''1'')] = Invalid_json ''not json'' \<and>
   mixed_replies 1 [(''question_num'', VStr ''2'')] = Call_raises ''timed out'' \<and>
   mixed_replies 2 [(''question_num'', VStr ''3'')] = Json_non_object ''list'' \<and>
   length (grading_results mixed_replies 0
     [[(''question_num'', VStr ''1'')], [(''question_num'', VStr ''2'')],
      [(''question_num'', VStr ''3'')], [(''question_num'', VStr ''4'')]]) = 4 \<and>
   map_of (grading_results mixed_replies 0
     [[(''question_num'', VStr ''1'')], [(''question_num'', VStr ''2'')],
      [(''question_num'', VStr ''3'')], [(''question_num'', VStr ''4'')]] ! 0) ''marks_awarded'' = None \<and>
   map_of (grading_results mixed_replies 0
     [[(''question_num'', VStr ''1'')], [(''question_num'', VStr ''2'')],
      [(''question_num'', VStr ''3'')], [(''question_num'', VStr ''4'')]] ! 1) ''marks_awarded'' =
     Some (VInt 0) \<and>
   map_of (grading_results mixed_replies 0
     [[(''question_num'', VStr ''1'')], [(''question_num'', VStr ''2'')],
      [(''question_num'', VStr ''3'')], [(''question_num'', VStr ''4'')]] ! 1) ''error'' =
     Some (VStr ''timed out'') \<and>
   map_of (grading_results mixed_replies 0
     [[(''question_num'', VStr ''1'')], [(''question_num'', VStr ''2'')],
      [(''question_num'', VStr ''3'')], [(''question_num'', VStr ''4'')]] ! 2) ''marks_awarded'' =
     Some (VInt 0) \<and>
   grading_results mixed_replies 0
     [[(''question_num'', VStr ''1'')], [(''question_num'', VStr ''2'')],
      [(''question_num'', VStr ''3'')], [(''question_num'', VStr ''4'')]] ! 3 =
     [(''question_num'', VStr ''4''), (''marks_awarded'', VInt 2),
      (''explanation'', VStr ''Partly right.'')]"
proof -
  let ?gd = "[[(''question_num'', VStr ''1'')], [(''question_num'', VStr ''2'')],
              [(''question_num'', VStr ''3'')], [(''question_num'', VStr ''4'')]]"
  have k0: "(0::nat) < length ?gd" and k1: "(1::nat) < length ?gd" and k2: "(2::nat) < length ?gd"
    by simp_all
  have r0: "mixed_replies 0 (?gd ! 0) = Invalid_json ''not json''"
    and r1: "mixed_replies 1 (?gd ! 1) = Call_raises ''timed out''"
    and r2: "mixed_replies 2 (?gd ! 2) = Json_non_object ''list''"
    and r3: "mixed_replies 3 (?gd ! 3) =
       Json_object [(''marks_awarded'', VInt 2), (''explanation'', VStr ''Partly right.'')]"
    by (simp_all add: mixed_replies_def)
  have m: "dict_merge [(''question_num'', VStr ''4'')]
       [(''marks_awarded'', VInt 2), (''explanation'', VStr ''Partly right.'')] =
     [(''question_num'', VStr ''4''), (''marks_awarded'', VInt 2),
      (''explanation'', VStr ''Partly right.'')]"
    by (simp add: dict_merge_def)
  have k3: "(3::nat) < length ?gd" by simp
  note at0 = grading_failure_isolated [OF k0, of mixed_replies]
  note at1 = grading_failure_isolated [OF k1, of mixed_replies]
  note at2 = grading_failure_isolated [OF k2, of mixed_replies]
  from at0 have len: "length (grading_results mixed_replies 0 ?gd) = length ?gd" by blast
  from at0 r0 have
    "map_of (grading_results mixed_replies 0 ?gd ! 0) ''marks_awarded'' = map_of (?gd ! 0) ''marks_awarded''"
    by blast
  then have a: "map_of (grading_results mixed_replies 0 ?gd ! 0) ''marks_awarded'' = None"
    by simp
  from at1 r1 have b1: "map_of (grading_results mixed_replies 0 ?gd ! 1) ''marks_awarded'' = Some (VInt 0)"
    and b2: "map_of (grading_results mixed_replies 0 ?gd ! 1) ''error'' = Some (VStr ''timed out'')"
    by blast+
  from at2 r2 have c: "map_of (grading_results mixed_replies 0 ?gd ! 2) ''marks_awarded'' = Some (VInt 0)"
    by blast
  from at1 k3 r3 have "grading_results mixed_replies 0 ?gd ! 3 =
      dict_merge (?gd ! 3) [(''marks_awarded'', VInt 2), (''explanation'', VStr ''Partly right.'')]"
    by blast
  then have d: "grading_results mixed_replies 0 ?gd ! 3 =
     [(''question_num'', VStr ''4''), (''marks_awarded'', VInt 2),
      (''explanation'', VStr ''Partly right.'')]"
    using m by simp
  have l4: "length (grading_results mixed_replies 0 ?gd) = 4" using len by simp
  have s0: "mixed_replies 0 [(''question_num'', VStr ''1'')] = Invalid_json ''not json''"
    and s1: "mixed_replies 1 [(''question_num'', VStr ''2'')] = Call_raises ''timed out''"
    and s2: "mixed_replies 2 [(''question_num'', VStr ''3'')] = Json_non_object ''list''"
    by (simp_all add: mixed_replies_def)
  show ?thesis
    by (intro conjI k0 s0 s1 s2 l4 a b1 b2 c d)
qed

text \<open>
  \<^bold>\<open>C4\<close> (the code at an input without marks). A question without a \<^verbatim>\<open>marks\<close> field gets
  the marks \<open>5\<close> in its grading request, not \<open>10\<close>.
\<close>

theorem absent_marks_default_is_five:
  "prepare_grading_data
     \<lparr>merged_answers = Some [(''1'', VStr ''A'')],
      question_paper_json = Some (Payload_list [[(''question_number'', VInt 1), (''question'', VStr ''Q'')]]),
      grading_scheme_json = Some (Payload_list [[(''question_number'', VInt 1), (''grading_scheme'', VStr ''G'')]]),
      user_notes = Some ''N''\<rparr> =
   Some [[(''question_num'', VStr ''1''), (''question'', VStr ''Q''), (''marks'', VInt 5),
          (''student_answer'', VStr ''A''), (''grading_scheme'', VStr ''G''),
          (''relevant_lecture_text'', VStr []), (''professor_prompt'', VStr ''N'')]]"
  by (simp add: prepare_grading_data_def question_data_of_def q_num_of_def gs_lookup_of_def
      dict_get_def Let_def str_int_def str_nat.simps digit_char_def)

text \<open>A question without a number yields no request: two questions, one request.\<close>

theorem unnumbered_question_counterexample:
  "prepare_grading_data
     \<lparr>merged_answers = Some [],
      question_paper_json = Some (Payload_list
        [[(''question_number'', VInt 1), (''question'', VStr ''Q1''), (''marks'', VInt 4)],
         [(''question'', VStr ''Q2''), (''marks'', VInt 7)]]),
      grading_scheme_json = Some (Payload_list []),
      user_notes = None\<rparr> =
   Some [[(''question_num'', VStr ''1''), (''question'', VStr ''Q1''), (''marks'', VInt 4),
          (''student_answer'', VStr []), (''grading_scheme'', VStr []),
          (''relevant_lecture_text'', VStr []), (''professor_prompt'', VStr [])]]"
  by (simp add: prepare_grading_data_def question_data_of_def q_num_of_def gs_lookup_of_def
      dict_get_def Let_def str_int_def str_nat.simps digit_char_def)

text \<open>
  \<^bold>\<open>C5\<close> (as the code has it). When the session holds the merged answers and lists for the
  question paper and the grading scheme, there is exactly one request for each question
  whose number, as a string, is not empty, in the order of the question paper; the loop
  returns one result per request, and the result at position \<open>i\<close> is computed from the
  request at position \<open>i\<close>.
\<close>

theorem one_request_per_numbered_question:
  assumes "merged_answers s = Some student_answers"
    and "question_paper_json s = Some (Payload_list question_paper)"
    and "grading_scheme_json s = Some (Payload_list grading_scheme)"
  shows "\<exists>grading_data. prepare_grading_data s = Some grading_data \<and>
           length grading_data = length (filter (\<lambda>q. q_num_of q \<noteq> []) question_paper) \<and>
           map (\<lambda>r. map_of r ''question_num'') grading_data =
             map (\<lambda>q. Some (VStr (q_num_of q))) (filter (\<lambda>q. q_num_of q \<noteq> []) question_paper) \<and>
           length (grading_results gemini 0 grading_data) = length grading_data \<and>
           (\<forall>i < length grading_data.
              grading_results gemini 0 grading_data ! i = grade_one (gemini i) (grading_data ! i))"
proof -
  let ?pp = "case user_notes s of None \<Rightarrow> [] | Some notes \<Rightarrow> notes"
  let ?gd = "assemble student_answers (gs_lookup_of grading_scheme) ?pp question_paper"
  have p: "prepare_grading_data s = Some ?gd"
    by (rule prepare_grading_data_lists [OF assms])
  have l: "length ?gd = length (filter (\<lambda>q. q_num_of q \<noteq> []) question_paper)"
    by (simp add: assemble_map_filter)
  have m: "map (\<lambda>r. map_of r ''question_num'') ?gd =
      map (\<lambda>q. Some (VStr (q_num_of q))) (filter (\<lambda>q. q_num_of q \<noteq> []) question_paper)"
    by (simp add: assemble_map_filter question_data_fields o_def)
  have n: "\<forall>i < length ?gd. grading_results gemini 0 ?gd ! i = grade_one (gemini i) (?gd ! i)"
    using nth_grading_results [of _ ?gd gemini 0] by simp
  have r: "length (grading_results gemini 0 ?gd) = length ?gd"
    by (rule length_grading_results)
  show ?thesis
    by (intro exI [of _ ?gd] conjI p l m r n)
qed

theorem one_request_per_numbered_question_witness:
  "\<exists>grading_data.
     prepare_grading_data
       \<lparr>merged_answers = Some [(''1'', VStr ''A'')],
        question_paper_json = Some (Payload_list
          [[(''question_number'', VStr ''1''), (''question'', VStr ''Q1''), (''marks'', VInt 4)],
           [(''question'', VStr ''Q2''), (''marks'', VInt 7)]]),
        grading_scheme_json = Some (Payload_list []),
        user_notes = None\<rparr> = Some grading_data \<and>
     length grading_data = 1 \<and>
     map_of (grading_data ! 0) ''question_num'' = Some (VStr ''1'') \<and>
     length (grading_results full_marks 0 grading_data) = 1"
proof -
  let ?qs = "[[(''question_number'', VStr ''1''), (''question'', VStr ''Q1''), (''marks'', VInt 4)],
              [(''question'', VStr ''Q2''), (''marks'', VInt 7)]]"
  let ?s = "\<lparr>merged_answers = Some [(''1'', VStr ''A'')],
        question_paper_json = Some (Payload_list ?qs),
        grading_scheme_json = Some (Payload_list []),
        user_notes = None\<rparr>"
  have f: "filter (\<lambda>q. q_num_of q \<noteq> []) ?qs = [?qs ! 0]"
    by (simp add: q_num_of_def dict_get_def)
  have q: "q_num_of (?qs ! 0) = ''1''" by (simp add: q_num_of_def dict_get_def)
  from one_request_per_numbered_question [of ?s "[(''1'', VStr ''A'')]" ?qs "[]" full_marks]
  obtain gd where "prepare_grading_data ?s = Some gd"
    "length gd = length (filter (\<lambda>q. q_num_of q \<noteq> []) ?qs)"
    "map (\<lambda>r. map_of r ''question_num'') gd =
       map (\<lambda>q. Some (VStr (q_num_of q))) (filter (\<lambda>q. q_num_of q \<noteq> []) ?qs)"
    "length (grading_results full_marks 0 gd) = length gd"
    by auto
  then have "prepare_grading_data ?s = Some gd \<and> length gd = 1 \<and>
     map_of (gd ! 0) ''question_num'' = Some (VStr ''1'') \<and>
     length (grading_results full_marks 0 gd) = 1"
    unfolding f using q by (cases gd) auto
  then show ?thesis ..
qed

text \<open>A question whose number is the empty string, with no rubric and no answer: no request.\<close>

theorem empty_label_counterexample:
  "prepare_grading_data
     \<lparr>merged_answers = Some [],
      question_paper_json = Some (Payload_list
        [[(''question_number'', VStr []), (''question'', VStr ''Q''), (''marks'', VInt 3)]]),
      grading_scheme_json = Some (Payload_list []),
      user_notes = None\<rparr> = Some []"
  by (simp add: prepare_grading_data_def q_num_of_def gs_lookup_of_def dict_get_def)

text \<open>
  \<^bold>\<open>C6\<close> (as the code has it). Every question whose number, as a string, is not empty has
  a request, whatever the rubric and the answers hold; its \<^verbatim>\<open>student_answer\<close> is the
  empty string when the merged answers have no entry for the number, and its
  \<^verbatim>\<open>grading_scheme\<close> is the empty string when no rubric entry has that number.
\<close>

theorem missing_rubric_or_answer_defaults:
  assumes "merged_answers s = Some student_answers"
    and "question_paper_json s = Some (Payload_list question_paper)"
    and "grading_scheme_json s = Some (Payload_list grading_scheme)"
    and q: "question \<in> set question_paper" and label: "q_num_of question \<noteq> []"
  shows "\<exists>grading_data r. prepare_grading_data s = Some grading_data \<and> r \<in> set grading_data \<and>
           map_of r ''question_num'' = Some (VStr (q_num_of question)) \<and>
           (map_of student_answers (q_num_of question) = None \<longrightarrow>
              map_of r ''student_answer'' = Some (VStr [])) \<and>
           ((\<forall>item \<in> set grading_scheme.
               py_str (dict_get item ''question_number'' VNone) \<noteq> q_num_of question) \<longrightarrow>
              map_of r ''grading_scheme'' = Some (VStr []))"
proof -
  let ?pp = "case user_notes s of None \<Rightarrow> [] | Some notes \<Rightarrow> notes"
  let ?gl = "gs_lookup_of grading_scheme"
  let ?gd = "assemble student_answers ?gl ?pp question_paper"
  let ?r = "question_data_of student_answers ?gl ?pp question"
  have p: "prepare_grading_data s = Some ?gd"
    by (rule prepare_grading_data_lists [OF assms(1-3)])
  have mem: "?r \<in> set ?gd"
    using q label by (simp add: assemble_map_filter)
  have ans: "map_of student_answers (q_num_of question) = None \<longrightarrow>
      map_of ?r ''student_answer'' = Some (VStr [])"
    by (simp add: question_data_fields dict_get_def)
  have rub: "(\<forall>item \<in> set grading_scheme.
               py_str (dict_get item ''question_number'' VNone) \<noteq> q_num_of question) \<longrightarrow>
      map_of ?r ''grading_scheme'' = Some (VStr [])"
  proof
    assume "\<forall>item \<in> set grading_scheme.
               py_str (dict_get item ''question_number'' VNone) \<noteq> q_num_of question"
    then have "map_of ?gl (q_num_of question) = None"
      by (simp only: gs_lookup_absent)
    then have "dict_get ?gl (q_num_of question) (VStr []) = VStr []"
      by (simp add: dict_get_def)
    then show "map_of ?r ''grading_scheme'' = Some (VStr [])"
      by (simp add: question_data_fields)
  qed
  have qn: "map_of ?r ''question_num'' = Some (VStr (q_num_of question))"
    by (rule question_data_fields(1))
  show ?thesis
    by (intro exI [of _ ?gd] exI [of _ ?r] conjI p mem qn ans rub)
qed

theorem missing_rubric_or_answer_defaults_witness:
  "\<exists>grading_data r.
     prepare_grading_data
       \<lparr>merged_answers = Some [(''1'', VStr ''A'')],
        question_paper_json = Some (Payload_list
          [[(''question_number'', VStr ''2''), (''question'', VStr ''Q2''), (''marks'', VInt 4)]]),
        grading_scheme_json = Some (Payload_list
          [[(''question_number'', VStr ''1''), (''grading_scheme'', VStr ''G1'')]]),
        user_notes = None\<rparr> = Some grading_data \<and>
     r \<in> set grading_data \<and>
     map_of r ''question_num'' = Some (VStr ''2'') \<and>
     map_of r ''student_answer'' = Some (VStr []) \<and>
     map_of r ''grading_scheme'' = Some (VStr [])"
proof -
  let ?q = "[(''question_number'', VStr ''2''), (''question'', VStr ''Q2''), (''marks'', VInt 4)]"
  let ?gs = "[[(''question_number'', VStr ''1''), (''grading_scheme'', VStr ''G1'')]]"
  let ?s = "\<lparr>merged_answers = Some [(''1'', VStr ''A'')],
        question_paper_json = Some (Payload_list [?q]),
        grading_scheme_json = Some (Payload_list ?gs),
        user_notes = None\<rparr>"
  have q: "q_num_of ?q = ''2''" by (simp add: q_num_of_def dict_get_def)
  have h1: "merged_answers ?s = Some [(''1'', VStr ''A'')]"
    and h2: "question_paper_json ?s = Some (Payload_list [?q])"
    and h3: "grading_scheme_json ?s = Some (Payload_list ?gs)"
    and h4: "?q \<in> set [?q]" and h5: "q_num_of ?q \<noteq> []"
    by (simp_all add: q)
  have a: "map_of [(''1'', VStr ''A'')] (q_num_of ?q) = None" by (simp add: q)
  have g: "\<forall>item \<in> set ?gs. py_str (dict_get item ''question_number'' VNone) \<noteq> q_num_of ?q"
    by (simp add: q dict_get_def)
  from missing_rubric_or_answer_defaults [OF h1 h2 h3 h4 h5] a g
  show ?thesis unfolding q by blast
qed

text \<open>
  The total of the possible marks is taken over the results, so the marks of a question
  that was skipped are not in it: the questions carry 4 and 7 marks, the total is 4.
\<close>

theorem skipped_marks_counterexample:
  "Option.bind
     (grading_page full_marks
        \<lparr>merged_answers = Some [(''1'', VStr ''A'')],
         question_paper_json = Some (Payload_list
           [[(''question_number'', VInt 1), (''question'', VStr ''Q1''), (''marks'', VInt 4)],
            [(''question'', VStr ''Q2''), (''marks'', VInt 7)]]),
         grading_scheme_json = Some (Payload_list []),
         user_notes = None\<rparr>)
     (total_score exact_arith) =
   Some (Inr \<lparr>awarded = NInt 4, possible = NInt 4, percentage = NFloat (Fin 100)\<rparr>)"
  by (simp add: grading_page_def prepare_grading_data_def question_data_of_def q_num_of_def
      gs_lookup_of_def dict_get_def Let_def str_int_def str_nat.simps digit_char_def
      grade_one_def grade_answer_def full_marks_def dict_merge_def total_score_def
      py_sum_def sum_numbers_def exact_arith_def)

text \<open>
  \<^bold>\<open>C8\<close> (as the code has it). For a non-empty list of results, \<open>awarded\<close> is the sum, as
  \<^verbatim>\<open>sum\<close> computes it, of the \<^verbatim>\<open>marks_awarded\<close> fields of the results and \<open>possible\<close> that
  of their \<^verbatim>\<open>marks\<close> fields (\<open>0\<close> for an absent field); for integer fields these are the
  exact sums, and for numbers with a float among them the floating-point sums of
  exactly these fields. When \<open>possible\<close> is zero the percentage is \<open>0\<close> and no quotient is taken;
  otherwise it is \<open>awarded / possible * 100\<close>, and an error of the division is passed
  on. The marks are those of the results, not of the question paper: a result has the
  \<^verbatim>\<open>marks\<close> field of its request unless the reply of the model brings one, and the
  requests have the marks (\<open>5\<close> where absent) of the questions with a number only.
\<close>

theorem total_score_sums:
  assumes nonempty: "results \<noteq> []"
  shows "(\<forall>a p. py_sum fl (map (\<lambda>r. dict_get r ''marks_awarded'' (VInt 0)) results) = Inr a \<and>
            py_sum fl (map (\<lambda>r. dict_get r ''marks'' (VInt 0)) results) = Inr p \<longrightarrow>
          total_score fl results =
            Some (if num_truthy p
                  then (case true_div fl a p of
                          Inl e \<Rightarrow> Inl e
                        | Inr q \<Rightarrow>
                            Inr \<lparr>awarded = a, possible = p, percentage = NFloat (mul_100 fl q)\<rparr>)
                  else Inr \<lparr>awarded = a, possible = p, percentage = NInt 0\<rparr>)) \<and>
    (\<forall>sc. total_score fl results = Some (Inr sc) \<longrightarrow>
       py_sum fl (map (\<lambda>r. dict_get r ''marks_awarded'' (VInt 0)) results) = Inr (awarded sc) \<and>
       py_sum fl (map (\<lambda>r. dict_get r ''marks'' (VInt 0)) results) = Inr (possible sc)) \<and>
    (list_all (\<lambda>r. is_int (dict_get r ''marks_awarded'' (VInt 0))) results \<longrightarrow>
       py_sum fl (map (\<lambda>r. dict_get r ''marks_awarded'' (VInt 0)) results) =
         Inr (NInt (\<Sum>r\<leftarrow>results. int_of (dict_get r ''marks_awarded'' (VInt 0))))) \<and>
    (list_all (\<lambda>r. is_int (dict_get r ''marks'' (VInt 0))) results \<longrightarrow>
       py_sum fl (map (\<lambda>r. dict_get r ''marks'' (VInt 0)) results) =
         Inr (NInt (\<Sum>r\<leftarrow>results. int_of (dict_get r ''marks'' (VInt 0))))) \<and>
    (list_all (\<lambda>r. is_number (dict_get r ''marks_awarded'' (VInt 0))) results \<and>
     \<not> list_all (\<lambda>r. is_int (dict_get r ''marks_awarded'' (VInt 0))) results \<longrightarrow>
       py_sum fl (map (\<lambda>r. dict_get r ''marks_awarded'' (VInt 0)) results) =
         (case float_sum fl (map (\<lambda>r. number_of (dict_get r ''marks_awarded'' (VInt 0))) results) of
            Inl e \<Rightarrow> Inl e | Inr x \<Rightarrow> Inr (NFloat x))) \<and>
    (list_all (\<lambda>r. is_number (dict_get r ''marks'' (VInt 0))) results \<and>
     \<not> list_all (\<lambda>r. is_int (dict_get r ''marks'' (VInt 0))) results \<longrightarrow>
       py_sum fl (map (\<lambda>r. dict_get r ''marks'' (VInt 0)) results) =
         (case float_sum fl (map (\<lambda>r. number_of (dict_get r ''marks'' (VInt 0))) results) of
            Inl e \<Rightarrow> Inl e | Inr x \<Rightarrow> Inr (NFloat x))) \<and>
    (\<forall>gemini grading_data.
       results = grading_results gemini 0 grading_data \<and>
       (\<forall>i < length grading_data. \<forall>r.
          gemini i (grading_data ! i) = Json_object r \<longrightarrow> map_of r ''marks'' = None) \<longrightarrow>
       map (\<lambda>r. dict_get r ''marks'' (VInt 0)) results =
       map (\<lambda>q. dict_get q ''marks'' (VInt 0)) grading_data) \<and>
    (\<forall>student_answers gs_lookup professor_prompt question_paper.
       map (\<lambda>q. dict_get q ''marks'' (VInt 0))
         (assemble student_answers gs_lookup professor_prompt question_paper) =
       map (\<lambda>q. dict_get q ''marks'' (VInt 5))
         (filter (\<lambda>q. q_num_of q \<noteq> []) question_paper))"
proof (intro conjI allI impI)
  fix a p
  assume "py_sum fl (map (\<lambda>r. dict_get r ''marks_awarded'' (VInt 0)) results) = Inr a \<and>
          py_sum fl (map (\<lambda>r. dict_get r ''marks'' (VInt 0)) results) = Inr p"
  then show "total_score fl results =
            Some (if num_truthy p
                  then (case true_div fl a p of
                          Inl e \<Rightarrow> Inl e
                        | Inr q \<Rightarrow>
                            Inr \<lparr>awarded = a, possible = p, percentage = NFloat (mul_100 fl q)\<rparr>)
                  else Inr \<lparr>awarded = a, possible = p, percentage = NInt 0\<rparr>)"
    using total_score_unfold [OF nonempty] by blast
next
  fix sc
  assume sc: "total_score fl results = Some (Inr sc)"
  from total_score_sums_of [OF sc]
  show "py_sum fl (map (\<lambda>r. dict_get r ''marks_awarded'' (VInt 0)) results) = Inr (awarded sc)"
    and "py_sum fl (map (\<lambda>r. dict_get r ''marks'' (VInt 0)) results) = Inr (possible sc)"
    by simp_all
next
  assume "list_all (\<lambda>r. is_int (dict_get r ''marks_awarded'' (VInt 0))) results"
  then have "list_all is_int (map (\<lambda>r. dict_get r ''marks_awarded'' (VInt 0)) results)"
    by (simp add: list_all_iff)
  from py_sum_ints [OF this, of fl]
  show "py_sum fl (map (\<lambda>r. dict_get r ''marks_awarded'' (VInt 0)) results) =
         Inr (NInt (\<Sum>r\<leftarrow>results. int_of (dict_get r ''marks_awarded'' (VInt 0))))"
    by (simp add: o_def)
next
  assume "list_all (\<lambda>r. is_int (dict_get r ''marks'' (VInt 0))) results"
  then have "list_all is_int (map (\<lambda>r. dict_get r ''marks'' (VInt 0)) results)"
    by (simp add: list_all_iff)
  from py_sum_ints [OF this, of fl]
  show "py_sum fl (map (\<lambda>r. dict_get r ''marks'' (VInt 0)) results) =
         Inr (NInt (\<Sum>r\<leftarrow>results. int_of (dict_get r ''marks'' (VInt 0))))"
    by (simp add: o_def)
next
  assume "list_all (\<lambda>r. is_number (dict_get r ''marks_awarded'' (VInt 0))) results \<and>
     \<not> list_all (\<lambda>r. is_int (dict_get r ''marks_awarded'' (VInt 0))) results"
  then have "list_all is_number (map (\<lambda>r. dict_get r ''marks_awarded'' (VInt 0)) results)"
    and "\<not> list_all is_int (map (\<lambda>r. dict_get r ''marks_awarded'' (VInt 0)) results)"
    by (simp_all add: list_all_iff)
  from py_sum_floats [OF this, of fl]
  show "py_sum fl (map (\<lambda>r. dict_get r ''marks_awarded'' (VInt 0)) results) =
         (case float_sum fl (map (\<lambda>r. number_of (dict_get r ''marks_awarded'' (VInt 0))) results) of
            Inl e \<Rightarrow> Inl e | Inr x \<Rightarrow> Inr (NFloat x))"
    by (simp add: o_def)
next
  assume "list_all (\<lambda>r. is_number (dict_get r ''marks'' (VInt 0))) results \<and>
     \<not> list_all (\<lambda>r. is_int (dict_get r ''marks'' (VInt 0))) results"
  then have "list_all is_number (map (\<lambda>r. dict_get r ''marks'' (VInt 0)) results)"
    and "\<not> list_all is_int (map (\<lambda>r. dict_get r ''marks'' (VInt 0)) results)"
    by (simp_all add: list_all_iff)
  from py_sum_floats [OF this, of fl]
  show "py_sum fl (map (\<lambda>r. dict_get r ''marks'' (VInt 0)) results) =
         (case float_sum fl (map (\<lambda>r. number_of (dict_get r ''marks'' (VInt 0))) results) of
            Inl e \<Rightarrow> Inl e | Inr x \<Rightarrow> Inr (NFloat x))"
    by (simp add: o_def)
next
  fix gemini grading_data
  assume "results = grading_results gemini 0 grading_data \<and>
       (\<forall>i < length grading_data. \<forall>r.
          gemini i (grading_data ! i) = Json_object r \<longrightarrow> map_of r ''marks'' = None)"
  then show "map (\<lambda>r. dict_get r ''marks'' (VInt 0)) results =
       map (\<lambda>q. dict_get q ''marks'' (VInt 0)) grading_data"
    using results_keep_marks [of grading_data gemini] by blast
next
  fix student_answers gs_lookup professor_prompt question_paper
  show "map (\<lambda>q. dict_get q ''marks'' (VInt 0))
         (assemble student_answers gs_lookup professor_prompt question_paper) =
       map (\<lambda>q. dict_get q ''marks'' (VInt 5))
         (filter (\<lambda>q. q_num_of q \<noteq> []) question_paper)"
    by (rule assemble_marks)
qed

theorem total_score_sums_witness:
  "total_score exact_arith
     (grading_results full_marks 0
        [[(''question_num'', VStr ''1''), (''marks'', VInt 4)],
         [(''question_num'', VStr ''2''), (''marks'', VInt 6)]]) =
     Some (Inr \<lparr>awarded = NInt 10, possible = NInt 10, percentage = NFloat (Fin 100)\<rparr>) \<and>
   map (\<lambda>r. dict_get r ''marks'' (VInt 0))
     (grading_results full_marks 0
        [[(''question_num'', VStr ''1''), (''marks'', VInt 4)],
         [(''question_num'', VStr ''2''), (''marks'', VInt 6)]]) = [VInt 4, VInt 6] \<and>
   total_score exact_arith
     [[(''marks'', VFloat ''2.5'' (Fin (5 / 2))), (''marks_awarded'', VFloat ''1.5'' (Fin (3 / 2)))],
      [(''marks'', VInt 1)]] =
     Some (Inr \<lparr>awarded = NFloat (Fin (3 / 2)), possible = NFloat (Fin (7 / 2)),
                 percentage = NFloat (Fin (300 / 7))\<rparr>)"
proof -
  let ?gd = "[[(''question_num'', VStr ''1''), (''marks'', VInt 4)],
              [(''question_num'', VStr ''2''), (''marks'', VInt 6)]]"
  let ?r1 = "grading_results full_marks 0 ?gd"
  let ?r2 = "[[(''marks'', VFloat ''2.5'' (Fin (5 / 2))), (''marks_awarded'', VFloat ''1.5'' (Fin (3 / 2)))],
              [(''marks'', VInt 1)]]"
  have r1: "?r1 = [[(''question_num'', VStr ''1''), (''marks'', VInt 4), (''marks_awarded'', VInt 4),
                    (''explanation'', VStr ''Correct.'')],
                   [(''question_num'', VStr ''2''), (''marks'', VInt 6), (''marks_awarded'', VInt 6),
                    (''explanation'', VStr ''Correct.'')]]"
    by (simp add: grade_one_def grade_answer_def full_marks_def dict_merge_def dict_get_def)
  have n1: "?r1 \<noteq> []" by simp
  have n2: "?r2 \<noteq> []" by simp
  note t1 = total_score_sums [OF n1, of exact_arith]
  note t2 = total_score_sums [OF n2, of exact_arith]
  \<comment> \<open>integer marks: the sums are exact\<close>
  have i1: "list_all (\<lambda>r. is_int (dict_get r ''marks_awarded'' (VInt 0))) ?r1"
    and i2: "list_all (\<lambda>r. is_int (dict_get r ''marks'' (VInt 0))) ?r1"
    unfolding r1 by (simp_all add: dict_get_def is_int_def)
  from t1 i1 have a1: "py_sum exact_arith (map (\<lambda>r. dict_get r ''marks_awarded'' (VInt 0)) ?r1) =
      Inr (NInt (\<Sum>r\<leftarrow>?r1. int_of (dict_get r ''marks_awarded'' (VInt 0))))"
    by blast
  from t1 i2 have p1: "py_sum exact_arith (map (\<lambda>r. dict_get r ''marks'' (VInt 0)) ?r1) =
      Inr (NInt (\<Sum>r\<leftarrow>?r1. int_of (dict_get r ''marks'' (VInt 0))))"
    by blast
  have s1: "(\<Sum>r\<leftarrow>?r1. int_of (dict_get r ''marks_awarded'' (VInt 0))) = 10"
    "(\<Sum>r\<leftarrow>?r1. int_of (dict_get r ''marks'' (VInt 0))) = 10"
    unfolding r1 by (simp_all add: dict_get_def)
  from t1 a1 p1 have "total_score exact_arith ?r1 =
      Some (if num_truthy (NInt 10)
            then (case true_div exact_arith (NInt 10) (NInt 10) of
                    Inl e \<Rightarrow> Inl e
                  | Inr q \<Rightarrow> Inr \<lparr>awarded = NInt 10, possible = NInt 10,
                                   percentage = NFloat (mul_100 exact_arith q)\<rparr>)
            else Inr \<lparr>awarded = NInt 10, possible = NInt 10, percentage = NInt 0\<rparr>)"
    unfolding s1 by blast
  then have c1: "total_score exact_arith ?r1 =
      Some (Inr \<lparr>awarded = NInt 10, possible = NInt 10, percentage = NFloat (Fin 100)\<rparr>)"
    by (simp add: exact_arith_def)
  \<comment> \<open>a result carries the marks of its request\<close>
  have o: "\<forall>i < length ?gd. \<forall>r. full_marks i (?gd ! i) = Json_object r \<longrightarrow> map_of r ''marks'' = None"
    by (auto simp: full_marks_def)
  from t1 o have "map (\<lambda>r. dict_get r ''marks'' (VInt 0)) ?r1 =
      map (\<lambda>q. dict_get q ''marks'' (VInt 0)) ?gd"
    by blast
  then have c2: "map (\<lambda>r. dict_get r ''marks'' (VInt 0)) ?r1 = [VInt 4, VInt 6]"
    by (simp add: dict_get_def)
  \<comment> \<open>fractional marks\<close>
  have f1: "list_all (\<lambda>r. is_number (dict_get r ''marks_awarded'' (VInt 0))) ?r2 \<and>
     \<not> list_all (\<lambda>r. is_int (dict_get r ''marks_awarded'' (VInt 0))) ?r2"
    and f2: "list_all (\<lambda>r. is_number (dict_get r ''marks'' (VInt 0))) ?r2 \<and>
     \<not> list_all (\<lambda>r. is_int (dict_get r ''marks'' (VInt 0))) ?r2"
    by (simp_all add: dict_get_def is_number_def is_int_def)
  from t2 f1 have "py_sum exact_arith (map (\<lambda>r. dict_get r ''marks_awarded'' (VInt 0)) ?r2) =
      (case float_sum exact_arith
              (map (\<lambda>r. number_of (dict_get r ''marks_awarded'' (VInt 0))) ?r2) of
         Inl e \<Rightarrow> Inl e | Inr x \<Rightarrow> Inr (NFloat x))"
    by blast
  then have a2: "py_sum exact_arith (map (\<lambda>r. dict_get r ''marks_awarded'' (VInt 0)) ?r2) =
      Inr (NFloat (Fin (3 / 2)))"
    by (simp add: exact_arith_def exact_sum_def dict_get_def)
  from t2 f2 have "py_sum exact_arith (map (\<lambda>r. dict_get r ''marks'' (VInt 0)) ?r2) =
      (case float_sum exact_arith (map (\<lambda>r. number_of (dict_get r ''marks'' (VInt 0))) ?r2) of
         Inl e \<Rightarrow> Inl e | Inr x \<Rightarrow> Inr (NFloat x))"
    by blast
  then have p2: "py_sum exact_arith (map (\<lambda>r. dict_get r ''marks'' (VInt 0)) ?r2) =
      Inr (NFloat (Fin (7 / 2)))"
    by (simp add: exact_arith_def exact_sum_def dict_get_def)
  from t2 a2 p2 have "total_score exact_arith ?r2 =
      Some (if num_truthy (NFloat (Fin (7 / 2)))
            then (case true_div exact_arith (NFloat (Fin (3 / 2))) (NFloat (Fin (7 / 2))) of
                    Inl e \<Rightarrow> Inl e
                  | Inr q \<Rightarrow> Inr \<lparr>awarded = NFloat (Fin (3 / 2)), possible = NFloat (Fin (7 / 2)),
                                   percentage = NFloat (mul_100 exact_arith q)\<rparr>)
            else Inr \<lparr>awarded = NFloat (Fin (3 / 2)), possible = NFloat (Fin (7 / 2)),
                      percentage = NInt 0\<rparr>)"
    by blast
  then have c3: "total_score exact_arith ?r2 =
      Some (Inr \<lparr>awarded = NFloat (Fin (3 / 2)), possible = NFloat (Fin (7 / 2)),
                  percentage = NFloat (Fin (300 / 7))\<rparr>)"
    by (simp add: exact_arith_def)
  from c1 c2 c3 show ?thesis by (intro conjI)
qed




end
